theory Spec2Isabelle
  imports Main "HOL-Library.Word" "HOL-Library.Log_Nat"
begin

section \<open>The C++ type double\<close>

text \<open>
  Trust scores, thresholds, the drop probability and the random draw are C++ doubles.
  A double is modelled by its value: a finite rational, one of the two infinities, or
  NaN. Arithmetic is the exact operation followed by rounding to the nearest binary64
  number, ties to even (IEEE 754, the arithmetic of double on the platforms ns-3 builds
  on). The two zeros are one value: they compare equal under every comparison the
  module makes, and no operation of the module tells them apart.
\<close>

datatype double = Fin rat | PlusInf | MinusInf | NaN

definition pow2 :: "int \<Rightarrow> rat" where
  "pow2 k = (if 0 \<le> k then 2 ^ nat k else 1 / 2 ^ nat (- k))"

text \<open>\<open>ilog2 q\<close> is the binary exponent of a positive rational: \<open>2^k \<le> q < 2^(k+1)\<close>.\<close>

definition ilog2 :: "rat \<Rightarrow> int" where
  "ilog2 q = (if 1 \<le> q then bitlen \<lfloor>q\<rfloor> - 1 else - bitlen (\<lceil>1 / q\<rceil> - 1))"

definition round_half_even :: "rat \<Rightarrow> int" where
  "round_half_even q =
     (let f = \<lfloor>q\<rfloor>; d = q - of_int f
      in if d < 1 / 2 then f else if 1 / 2 < d then f + 1
         else if even f then f else f + 1)"

text \<open>
  Rounding to binary64: 53 significant bits, the least exponent of the last place
  is \<open>-1074\<close> (subnormal numbers), and a result of magnitude \<open>2^1024\<close> or more
  overflows to an infinity.
\<close>

definition round_double :: "rat \<Rightarrow> double" where
  "round_double q =
     (if q = 0 then Fin 0
      else let e = max (ilog2 \<bar>q\<bar> - 52) (- 1074);
               v = of_int (round_half_even (q / pow2 e)) * pow2 e
           in if pow2 1024 \<le> \<bar>v\<bar> then (if 0 < q then PlusInf else MinusInf)
              else Fin v)"

fun dneg :: "double \<Rightarrow> double" where
  "dneg (Fin a) = Fin (- a)"
| "dneg PlusInf = MinusInf"
| "dneg MinusInf = PlusInf"
| "dneg NaN = NaN"

fun dadd :: "double \<Rightarrow> double \<Rightarrow> double" where
  "dadd NaN y = NaN"
| "dadd x NaN = NaN"
| "dadd (Fin a) (Fin b) = round_double (a + b)"
| "dadd PlusInf MinusInf = NaN"
| "dadd MinusInf PlusInf = NaN"
| "dadd PlusInf y = PlusInf"
| "dadd x PlusInf = PlusInf"
| "dadd MinusInf y = MinusInf"
| "dadd x MinusInf = MinusInf"

text \<open>The comparisons \<open><\<close> and \<open><=\<close> of C++; both are false when an operand is NaN.\<close>

fun dless :: "double \<Rightarrow> double \<Rightarrow> bool" where
  "dless NaN y = False"
| "dless x NaN = False"
| "dless (Fin a) (Fin b) = (a < b)"
| "dless x MinusInf = False"
| "dless PlusInf y = False"
| "dless MinusInf y = True"
| "dless x PlusInf = True"

fun dle :: "double \<Rightarrow> double \<Rightarrow> bool" where
  "dle NaN y = False"
| "dle x NaN = False"
| "dle (Fin a) (Fin b) = (a \<le> b)"
| "dle MinusInf y = True"
| "dle x PlusInf = True"
| "dle x MinusInf = False"
| "dle PlusInf y = False"

text \<open>\<open>std::clamp(v, lo, hi)\<close>: \<open>(v < lo) ? lo : (hi < v) ? hi : v\<close>.\<close>

definition clamp :: "double \<Rightarrow> double \<Rightarrow> double \<Rightarrow> double" where
  "clamp v lo hi = (if dless v lo then lo else if dless hi v then hi else v)"

section \<open>The mitigated module (Mitigation/blackhole-aodv.cc)\<close>

text \<open>The literals \<open>0.3\<close>, \<open>0.6\<close> and \<open>0.05\<close> are the doubles nearest to these decimals.\<close>

definition TRUST_THRESHOLD :: double where
  "TRUST_THRESHOLD = round_double (3 / 10)"

definition RECOVERY_THRESHOLD :: double where
  "RECOVERY_THRESHOLD = round_double (6 / 10)"

definition ADAPTIVE_DROP_RATE :: double where
  "ADAPTIVE_DROP_RATE = round_double (5 / 100)"

type_synonym device = nat

text \<open>
  The part of the host's \<open>Ipv4\<close> object that \<open>RouteInput\<close> calls. An interface index
  is an \<open>int32_t\<close>, \<open>-1\<close> when the device has no interface; the cast to \<open>uint32_t\<close>
  keeps the bits.
\<close>

record ipv4 =
  GetInterfaceForDevice :: "device \<Rightarrow> 32 word"
  IsDestinationAddress :: "32 word \<Rightarrow> 32 word \<Rightarrow> bool"
  GetLocalAddress :: "32 word \<Rightarrow> 32 word"
  GetNetDevice :: "32 word \<Rightarrow> device"

record Ipv4Header =
  GetSource :: "32 word"
  GetDestination :: "32 word"

record Ipv4Route =
  route_Destination :: "32 word"
  route_Source :: "32 word"
  route_OutputDevice :: device

record BlackholeAodv =
  m_ipv4 :: "ipv4 option"
  trustScores :: "32 word \<rightharpoonup> double"
  blacklistedNodes :: "32 word set"
  totalDroppedPackets :: "32 word"
  totalForwardedPackets :: "32 word"
  dropProbability :: double

text \<open>The constructor: no IPv4 object, empty ledger, counters zero, probability \<open>0.05\<close>.\<close>

definition BlackholeAodv_new :: BlackholeAodv where
  "BlackholeAodv_new =
     \<lparr>m_ipv4 = None, trustScores = Map.empty, blacklistedNodes = {},
      totalDroppedPackets = 0, totalForwardedPackets = 0,
      dropProbability = round_double (5 / 100)\<rparr>"

definition SetIpv4 :: "BlackholeAodv \<Rightarrow> ipv4 option \<Rightarrow> BlackholeAodv" where
  "SetIpv4 s ip = s\<lparr>m_ipv4 := ip\<rparr>"

definition SetDropProbability :: "BlackholeAodv \<Rightarrow> double \<Rightarrow> BlackholeAodv" where
  "SetDropProbability s probability =
     (if dless probability (Fin 0) \<or> dless (Fin 1) probability then s
      else s\<lparr>dropProbability := probability\<rparr>)"

text \<open>
  The loop of \<open>InitializeTrustScores\<close>: \<open>for (uint32_t i = 0; i < totalNodes; ++i)
  trustScores[i] = 1.0\<close>.
\<close>

function InitializeTrustScores_loop ::
  "32 word \<Rightarrow> 32 word \<Rightarrow> (32 word \<rightharpoonup> double) \<Rightarrow> (32 word \<rightharpoonup> double)" where
  "InitializeTrustScores_loop i totalNodes ts =
     (if i < totalNodes then InitializeTrustScores_loop (i + 1) totalNodes (ts(i \<mapsto> Fin 1))
      else ts)"
  by pat_completeness auto
termination
proof (relation "measure (\<lambda>(i, totalNodes, ts). unat totalNodes - unat i)")
  show "wf (measure (\<lambda>(i, totalNodes, ts). unat totalNodes - unat i))"
    by simp
next
  fix i totalNodes :: "32 word" and ts :: "32 word \<rightharpoonup> double"
  assume lt: "i < totalNodes"
  then have "unat totalNodes - unat (i + 1) < unat totalNodes - unat i"
    by unat_arith
  then show "((i + 1, totalNodes, ts(i \<mapsto> Fin 1)), (i, totalNodes, ts))
      \<in> measure (\<lambda>(i, totalNodes, ts). unat totalNodes - unat i)"
    by simp
qed

declare InitializeTrustScores_loop.simps [simp del]

definition InitializeTrustScores :: "BlackholeAodv \<Rightarrow> 32 word \<Rightarrow> BlackholeAodv" where
  "InitializeTrustScores s totalNodes =
     s\<lparr>trustScores := InitializeTrustScores_loop 0 totalNodes (trustScores s)\<rparr>"

definition GetTrustScore :: "BlackholeAodv \<Rightarrow> 32 word \<Rightarrow> double" where
  "GetTrustScore s nodeId = (case trustScores s nodeId of Some v \<Rightarrow> v | None \<Rightarrow> Fin 1)"

text \<open>
  \<open>UpdateTrustScore\<close>: an unknown node is entered with \<open>1.0\<close> (\<open>old\<close> is the score
  the addition reads), \<open>-0.2\<close> or \<open>+0.1\<close> is added, the sum is clamped to
  \<open>[0.0, 1.0]\<close> and stored, and the node is inserted into or erased from the blacklist.
  The literal \<open>0.2\<close> is the double nearest to it, negated; \<open>0.1\<close> likewise.
\<close>

definition score_change :: "bool \<Rightarrow> double" where
  "score_change dropped = (if dropped then dneg (round_double (2 / 10)) else round_double (1 / 10))"

definition UpdateTrustScore :: "BlackholeAodv \<Rightarrow> 32 word \<Rightarrow> bool \<Rightarrow> BlackholeAodv" where
  "UpdateTrustScore s nodeId dropped =
     (let old = (case trustScores s nodeId of None \<Rightarrow> Fin 1 | Some v \<Rightarrow> v);
          change = score_change dropped;
          score = clamp (dadd old change) (Fin 0) (Fin 1);
          bl = (if dless score TRUST_THRESHOLD then insert nodeId (blacklistedNodes s)
                else if dle RECOVERY_THRESHOLD score then blacklistedNodes s - {nodeId}
                else blacklistedNodes s)
      in s\<lparr>trustScores := (trustScores s)(nodeId \<mapsto> score), blacklistedNodes := bl\<rparr>)"

fun run_updates :: "BlackholeAodv \<Rightarrow> (32 word \<times> bool) list \<Rightarrow> BlackholeAodv" where
  "run_updates s [] = s"
| "run_updates s ((nodeId, dropped) # ops) = run_updates (UpdateTrustScore s nodeId dropped) ops"

subsection \<open>RouteInput\<close>

text \<open>
  What \<open>RouteInput\<close> does to the host: the callback it invokes, if any. The packet is
  handed to the callback as it came and plays no part in the decision; it is left out.
\<close>

datatype host_call =
  NoCall
| LocalDeliverCall Ipv4Header "32 word"
| UnicastForwardCall Ipv4Route Ipv4Header

text \<open>
  Lines 115 to 143 of \<open>RouteInput\<close>, the code after the blacklist check: local delivery
  when the destination is an address of this node, forwarding otherwise. \<open>ucb\<close> and
  \<open>lcb\<close> say that the unicast-forward and the local-deliver callback are not null.
\<close>

definition deliver_or_forward ::
  "BlackholeAodv \<Rightarrow> ipv4 \<Rightarrow> Ipv4Header \<Rightarrow> 32 word \<Rightarrow> bool \<Rightarrow> bool
     \<Rightarrow> bool \<times> host_call \<times> BlackholeAodv" where
  "deliver_or_forward s ip header interfaceIndex ucb lcb =
     (if IsDestinationAddress ip (GetDestination header) interfaceIndex then
        (if lcb then (True, LocalDeliverCall header interfaceIndex, s)
         else (False, NoCall, s))
      else
        (let s1 = s\<lparr>totalForwardedPackets := totalForwardedPackets s + 1\<rparr>;
             s2 = UpdateTrustScore s1 (GetDestination header) False
         in if ucb then
              (True,
               UnicastForwardCall
                 \<lparr>route_Destination = GetDestination header,
                  route_Source = GetLocalAddress ip interfaceIndex,
                  route_OutputDevice = GetNetDevice ip interfaceIndex\<rparr> header,
               s2)
            else (False, NoCall, s2)))"

text \<open>
  \<open>RouteInput\<close> returns the boolean of the source, the callback invoked and the module
  after the call. \<open>r\<close> is the value \<open>m_randomVar->GetValue()\<close> returns, a draw from
  \<open>[0, 1)\<close>; the source draws it only when the destination is blacklisted. Where the
  source leaves the blacklist check without returning, it goes on to lines 115 to 143.
\<close>

definition RouteInput ::
  "BlackholeAodv \<Rightarrow> Ipv4Header \<Rightarrow> device \<Rightarrow> bool \<Rightarrow> bool \<Rightarrow> double
     \<Rightarrow> bool \<times> host_call \<times> BlackholeAodv" where
  "RouteInput s header dev ucb lcb r =
     (let destNodeId = GetDestination header in
      case m_ipv4 s of
        None \<Rightarrow> (False, NoCall, s)
      | Some ip \<Rightarrow>
          (let interfaceIndex = GetInterfaceForDevice ip dev in
           if interfaceIndex = - 1 then (False, NoCall, s)
           else if destNodeId \<in> blacklistedNodes s then
             (if dless r (dropProbability s) then
                (False, NoCall,
                 UpdateTrustScore (s\<lparr>totalDroppedPackets := totalDroppedPackets s + 1\<rparr>)
                   destNodeId True)
              else deliver_or_forward s ip header interfaceIndex ucb lcb)
           else deliver_or_forward s ip header interfaceIndex ucb lcb))"

subsection \<open>LogTrustScores\<close>

text \<open>
  The log file is a sequence of lines; a line is the header or a data row with the
  values printed in it. \<open>headerWritten\<close> is the function's static flag: one per process,
  shared by every module instance. \<open>is_open\<close> says that opening the file succeeded.
  A \<open>std::map\<close> and a \<open>std::set\<close> are iterated in ascending key order.
\<close>

datatype log_line =
  HeaderLine
| ScoreLine double "32 word" double
| BlacklistLine double "32 word"

record process_log =
  headerWritten :: bool
  trustLog :: "log_line list"

definition LogTrustScores ::
  "BlackholeAodv \<Rightarrow> double \<Rightarrow> bool \<Rightarrow> process_log \<Rightarrow> process_log" where
  "LogTrustScores s now is_open g =
     (if \<not> is_open then g
      else
        (let header = (if \<not> headerWritten g then [HeaderLine] else []);
             scores = map (\<lambda>n. ScoreLine now n (the (trustScores s n)))
                        (sorted_list_of_set (dom (trustScores s)));
             blacklisted = map (\<lambda>n. BlacklistLine now n)
                             (sorted_list_of_set (blacklistedNodes s))
         in \<lparr>headerWritten = True,
             trustLog = trustLog g @ header @ scores @ blacklisted\<rparr>))"

text \<open>A sequence of exports: each names the instance, the simulation time and whether
  the open succeeds.\<close>

fun run_exports :: "process_log \<Rightarrow> (BlackholeAodv \<times> double \<times> bool) list \<Rightarrow> process_log" where
  "run_exports g [] = g"
| "run_exports g ((s, now, is_open) # es) = run_exports (LogTrustScores s now is_open g) es"

section \<open>The unmitigated module (blackhole-aodv.cc without the trust ledger)\<close>

record BlackholeAodv_unmit =
  m_ipv4_unmit :: "ipv4 option"
  totalDroppedPackets_unmit :: "32 word"
  totalForwardedPackets_unmit :: "32 word"
  dropProbability_unmit :: double

definition BlackholeAodv_unmit_new :: BlackholeAodv_unmit where
  "BlackholeAodv_unmit_new =
     \<lparr>m_ipv4_unmit = None, totalDroppedPackets_unmit = 0,
      totalForwardedPackets_unmit = 0, dropProbability_unmit = Fin 1\<rparr>"

text \<open>\<open>RouteInput\<close> draws \<open>randomValue\<close> first and uses none of its arguments otherwise.\<close>

definition RouteInput_unmit :: "BlackholeAodv_unmit \<Rightarrow> double \<Rightarrow> bool \<times> BlackholeAodv_unmit" where
  "RouteInput_unmit s randomValue =
     (if dle randomValue (dropProbability_unmit s) then
        (False, s\<lparr>totalDroppedPackets_unmit := totalDroppedPackets_unmit s + 1\<rparr>)
      else (True, s\<lparr>totalForwardedPackets_unmit := totalForwardedPackets_unmit s + 1\<rparr>))"

definition SetDropProbability_unmit :: "BlackholeAodv_unmit \<Rightarrow> double \<Rightarrow> BlackholeAodv_unmit" where
  "SetDropProbability_unmit s probability =
     (if dless probability (Fin 0) \<or> dless (Fin 1) probability then s
      else s\<lparr>dropProbability_unmit := probability\<rparr>)"

section \<open>Predicates of the claims\<close>

text \<open>Every stored trust score lies in \<open>[0.0, 1.0]\<close>.\<close>

definition scores_in_range :: "BlackholeAodv \<Rightarrow> bool" where
  "scores_in_range s \<longleftrightarrow>
     (\<forall>n v. trustScores s n = Some v \<longrightarrow> dle (Fin 0) v \<and> dle v (Fin 1))"

text \<open>
  The blacklist lies between the thresholds: a blacklisted node has a stored score below
  the recovery threshold, and a node with a stored score below the trust threshold is
  blacklisted.
\<close>

definition blacklist_sandwiched :: "BlackholeAodv \<Rightarrow> bool" where
  "blacklist_sandwiched s \<longleftrightarrow>
     (\<forall>n \<in> blacklistedNodes s. \<exists>v. trustScores s n = Some v \<and> dless v RECOVERY_THRESHOLD) \<and>
     (\<forall>n v. trustScores s n = Some v \<and> dless v TRUST_THRESHOLD \<longrightarrow> n \<in> blacklistedNodes s)"

text \<open>A draw of the uniform random variable with bounds \<open>0.0\<close> and \<open>1.0\<close>.\<close>

definition is_draw :: "double \<Rightarrow> bool" where
  "is_draw r \<longleftrightarrow> dle (Fin 0) r \<and> dless r (Fin 1)"

section \<open>An example host and module\<close>

text \<open>
  A host with one device, \<open>0\<close>, on interface \<open>0\<close>, whose address is \<open>1\<close>; a module
  bound to it in which node \<open>7\<close> is blacklisted with score \<open>0.5\<close>; a packet for node
  \<open>7\<close>. They are the inputs at which the theorems below are instantiated.
\<close>

definition example_ipv4 :: ipv4 where
  "example_ipv4 =
     \<lparr>GetInterfaceForDevice = (\<lambda>dev. if dev = 0 then 0 else - 1),
      IsDestinationAddress = (\<lambda>addr iface. addr = 1 \<and> iface = 0),
      GetLocalAddress = (\<lambda>iface. 1),
      GetNetDevice = (\<lambda>iface. 0)\<rparr>"

definition example_module :: BlackholeAodv where
  "example_module =
     \<lparr>m_ipv4 = Some example_ipv4, trustScores = [7 \<mapsto> Fin (1 / 2)],
      blacklistedNodes = {7}, totalDroppedPackets = 4, totalForwardedPackets = 3,
      dropProbability = Fin (1 / 2)\<rparr>"

definition example_header :: Ipv4Header where
  "example_header = \<lparr>GetSource = 2, GetDestination = 7\<rparr>"

section \<open>Rounding: how a concrete sum is evaluated\<close>

lemma pow2_pos: "0 < pow2 k"
  by (simp add: pow2_def)

lemma bitlen_eqI:
  assumes "2 ^ n \<le> x" "x < 2 ^ (n + 1)"
  shows "bitlen x = int n + 1"
proof (rule antisym)
  show "bitlen x \<le> int n + 1"
    using assms(2) by (simp add: bitlen_le_iff_power nat_add_distrib)
  show "int n + 1 \<le> bitlen x"
    using assms(1) by (simp add: bitlen_ge_iff_power nat_add_distrib)
qed

lemma ilog2_ge1:
  assumes "1 \<le> q" "pow2 k \<le> q" "q < pow2 (k + 1)"
  shows "ilog2 q = k"
proof -
  have k0: "0 \<le> k"
  proof (rule ccontr)
    assume "\<not> 0 \<le> k"
    then have "pow2 (k + 1) \<le> 1" by (simp add: pow2_def)
    with assms show False by simp
  qed
  define n where "n = nat k"
  have lo: "(2::rat) ^ n \<le> q" and hi: "q < 2 ^ (n + 1)"
    using assms k0 by (simp_all add: pow2_def n_def nat_add_distrib)
  have "(2::int) ^ n \<le> \<lfloor>q\<rfloor>"
    using lo by (simp add: le_floor_iff)
  moreover have "\<lfloor>q\<rfloor> < 2 ^ (n + 1)"
    using hi by (simp add: floor_less_iff)
  ultimately have "bitlen \<lfloor>q\<rfloor> = int n + 1"
    by (rule bitlen_eqI)
  then show ?thesis
    using assms(1) k0 by (simp add: ilog2_def n_def)
qed

lemma ilog2_lt1:
  assumes "0 < q" "q < 1" "pow2 k \<le> q" "q < pow2 (k + 1)"
  shows "ilog2 q = k"
proof -
  have k0: "k < 0"
  proof (rule ccontr)
    assume "\<not> k < 0"
    then have "1 \<le> pow2 k" by (simp add: pow2_def)
    with assms show False by simp
  qed
  define n where "n = nat (- k) - 1"
  have kn: "k = - int n - 1" using k0 by (simp add: n_def)
  have lo: "1 / 2 ^ (n + 1) \<le> q"
    using assms(3) by (simp add: pow2_def kn nat_add_distrib)
  have "pow2 (k + 1) = 1 / 2 ^ n"
    by (simp add: pow2_def kn)
  then have hi: "q < 1 / 2 ^ n"
    using assms(4) by simp
  have "1 / q \<le> 2 ^ (n + 1)"
    using lo assms(1) by (simp add: field_simps)
  then have c_hi: "\<lceil>1 / q\<rceil> \<le> 2 ^ (n + 1)"
    by (simp add: ceiling_le_iff)
  have "2 ^ n < 1 / q"
    using hi assms(1) by (simp add: field_simps)
  then have c_lo: "2 ^ n < \<lceil>1 / q\<rceil>"
    by (simp add: less_ceiling_iff)
  have "bitlen (\<lceil>1 / q\<rceil> - 1) = int n + 1"
    using c_lo c_hi by (intro bitlen_eqI) simp_all
  then show ?thesis
    using assms(2) by (simp add: ilog2_def kn)
qed

lemma ilog2_eqI:
  assumes "0 < q" "pow2 k \<le> q" "q < pow2 (k + 1)"
  shows "ilog2 q = k"
  using assms ilog2_ge1 ilog2_lt1 by (cases "1 \<le> q") auto

lemma round_half_even_eqI:
  assumes "\<bar>q - of_int m\<bar> < 1 / 2 \<or> (\<bar>q - of_int m\<bar> = 1 / 2 \<and> even m)"
  shows "round_half_even q = m"
proof (cases "of_int m \<le> q")
  case True
  with assms have "q < of_int m + 1" by linarith
  with True have "\<lfloor>q\<rfloor> = m" by (simp add: floor_unique)
  with assms True show ?thesis
    by (auto simp: round_half_even_def Let_def)
next
  case False
  with assms have "of_int (m - 1) \<le> q" "q < of_int (m - 1) + 1" by auto
  then have fl: "\<lfloor>q\<rfloor> = m - 1" by (rule floor_unique)
  from False assms have "1 / 2 < q - of_int (m - 1) \<or> (q - of_int (m - 1) = 1 / 2 \<and> even m)"
    by auto
  with fl show ?thesis
    by (auto simp: round_half_even_def Let_def)
qed

text \<open>
  A rational in the binade \<open>[2^k, 2^(k+1))\<close> rounds to \<open>m * 2^e\<close>, where \<open>e\<close> is the
  exponent of the last place and \<open>m\<close> the integer nearest to \<open>q / 2^e\<close> (the even one of
  two at equal distance).
\<close>

lemma round_double_eqI:
  assumes "q \<noteq> 0" "pow2 k \<le> \<bar>q\<bar>" "\<bar>q\<bar> < pow2 (k + 1)"
    and "e = max (k - 52) (- 1074)"
    and "\<bar>q / pow2 e - of_int m\<bar> < 1 / 2 \<or> (\<bar>q / pow2 e - of_int m\<bar> = 1 / 2 \<and> even m)"
    and "\<bar>of_int m * pow2 e\<bar> < pow2 1024"
  shows "round_double q = Fin (of_int m * pow2 e)"
proof -
  have "ilog2 \<bar>q\<bar> = k"
    using assms(1-3) by (intro ilog2_eqI) simp_all
  moreover have "round_half_even (q / pow2 e) = m"
    using assms(5) by (rule round_half_even_eqI)
  ultimately show ?thesis
    using assms(1,4,6) by (simp add: round_double_def Let_def)
qed

text \<open>The literals \<open>0.0\<close> and \<open>1.0\<close> are binary64 numbers; they are written \<open>Fin 0\<close>
  and \<open>Fin 1\<close>.\<close>

lemma lit_0_0: "round_double 0 = Fin 0"
  by (simp add: round_double_def)

lemma lit_1_0: "round_double 1 = Fin 1"
  using round_double_eqI [where q = 1 and k = 0 and e = "- 52" and m = 4503599627370496]
  by (simp add: pow2_def)

lemma lit_0_2: "round_double (2 / 10) = Fin (3602879701896397 / 18014398509481984)"
  using round_double_eqI [where q = "2 / 10" and k = "- 3" and e = "- 55" and m = 7205759403792794]
  by (simp add: pow2_def)

lemma lit_0_1: "round_double (1 / 10) = Fin (3602879701896397 / 36028797018963968)"
  using round_double_eqI [where q = "1 / 10" and k = "- 4" and e = "- 56" and m = 7205759403792794]
  by (simp add: pow2_def)

lemma lit_0_3: "round_double (3 / 10) = Fin (5404319552844595 / 18014398509481984)"
  using round_double_eqI [where q = "3 / 10" and k = "- 2" and e = "- 54" and m = 5404319552844595]
  by (simp add: pow2_def)

lemma lit_0_6: "round_double (6 / 10) = Fin (5404319552844595 / 9007199254740992)"
  using round_double_eqI [where q = "6 / 10" and k = "- 1" and e = "- 53" and m = 5404319552844595]
  by (simp add: pow2_def)

lemma lit_0_05: "round_double (5 / 100) = Fin (3602879701896397 / 72057594037927936)"
  using round_double_eqI [where q = "5 / 100" and k = "- 5" and e = "- 57" and m = 7205759403792794]
  by (simp add: pow2_def)

section \<open>Facts about doubles and the constants of the module\<close>

lemma round_double_not_NaN: "round_double q \<noteq> NaN"
  by (simp add: round_double_def Let_def)

lemma score_change_True: "score_change True = Fin (- (3602879701896397 / 18014398509481984))"
  by (simp only: score_change_def lit_0_2 if_True dneg.simps)

lemma score_change_False: "score_change False = Fin (3602879701896397 / 36028797018963968)"
  by (simp only: score_change_def lit_0_1 if_False)

lemma TRUST_THRESHOLD_val: "TRUST_THRESHOLD = Fin (5404319552844595 / 18014398509481984)"
  by (simp only: TRUST_THRESHOLD_def lit_0_3)

lemma RECOVERY_THRESHOLD_val: "RECOVERY_THRESHOLD = Fin (5404319552844595 / 9007199254740992)"
  by (simp only: RECOVERY_THRESHOLD_def lit_0_6)

lemma dadd_Fin_not_NaN: "v \<noteq> NaN \<Longrightarrow> dadd v (Fin c) \<noteq> NaN"
  by (cases v) (simp_all add: round_double_not_NaN)

lemma clamp_unit_range:
  "v \<noteq> NaN \<Longrightarrow> dle (Fin 0) (clamp v (Fin 0) (Fin 1)) \<and> dle (clamp v (Fin 0) (Fin 1)) (Fin 1)"
  by (cases v) (auto simp: clamp_def)

section \<open>The score update\<close>

lemma UpdateTrustScore_trustScores:
  "trustScores (UpdateTrustScore s nodeId dropped) =
     (trustScores s)(nodeId \<mapsto>
        clamp (dadd (GetTrustScore s nodeId) (score_change dropped)) (Fin 0) (Fin 1))"
  by (auto simp: UpdateTrustScore_def GetTrustScore_def Let_def split: option.splits)

lemma UpdateTrustScore_blacklistedNodes:
  "blacklistedNodes (UpdateTrustScore s nodeId dropped) =
     (let score = GetTrustScore (UpdateTrustScore s nodeId dropped) nodeId in
      if dless score TRUST_THRESHOLD then insert nodeId (blacklistedNodes s)
      else if dle RECOVERY_THRESHOLD score then blacklistedNodes s - {nodeId}
      else blacklistedNodes s)"
  by (auto simp: UpdateTrustScore_def GetTrustScore_def Let_def split: option.splits)

lemma UpdateTrustScore_other_fields:
  "m_ipv4 (UpdateTrustScore s nodeId dropped) = m_ipv4 s"
  "totalDroppedPackets (UpdateTrustScore s nodeId dropped) = totalDroppedPackets s"
  "totalForwardedPackets (UpdateTrustScore s nodeId dropped) = totalForwardedPackets s"
  "dropProbability (UpdateTrustScore s nodeId dropped) = dropProbability s"
  by (simp_all add: UpdateTrustScore_def Let_def)

section \<open>Invariants of the ledger\<close>

lemma clamp_unit_Fin:
  "v \<noteq> NaN \<Longrightarrow> \<exists>q. clamp v (Fin 0) (Fin 1) = Fin q \<and> 0 \<le> q \<and> q \<le> 1"
  by (cases v) (auto simp: clamp_def)

lemma GetTrustScore_in_range:
  "scores_in_range s \<Longrightarrow> GetTrustScore s n \<noteq> NaN"
proof (cases "trustScores s n")
  case None
  then show ?thesis by (simp add: GetTrustScore_def)
next
  case (Some v)
  assume "scores_in_range s"
  with Some have "dle (Fin 0) v"
    by (simp add: scores_in_range_def)
  then have "v \<noteq> NaN" by auto
  with Some show ?thesis by (simp add: GetTrustScore_def)
qed

lemma score_change_Fin: "\<exists>c. score_change d = Fin c"
  by (cases d; simp only: score_change_True score_change_False; blast)

lemma new_score_not_NaN:
  "v \<noteq> NaN \<Longrightarrow> clamp (dadd v (score_change d)) (Fin 0) (Fin 1) \<noteq> NaN"
  using score_change_Fin [of d] clamp_unit_range [of "dadd v (score_change d)"]
  by (auto simp: dadd_Fin_not_NaN)

lemma UpdateTrustScore_scores_in_range:
  assumes "scores_in_range s"
  shows "scores_in_range (UpdateTrustScore s nodeId dropped)"
proof -
  obtain c where c: "score_change dropped = Fin c"
    using score_change_Fin by blast
  have "dadd (GetTrustScore s nodeId) (Fin c) \<noteq> NaN"
    using assms by (intro dadd_Fin_not_NaN GetTrustScore_in_range)
  then have "dle (Fin 0) (clamp (dadd (GetTrustScore s nodeId) (Fin c)) (Fin 0) (Fin 1)) \<and>
      dle (clamp (dadd (GetTrustScore s nodeId) (Fin c)) (Fin 0) (Fin 1)) (Fin 1)"
    by (rule clamp_unit_range)
  with assms c show ?thesis
    by (auto simp: scores_in_range_def UpdateTrustScore_trustScores)
qed

lemma run_updates_scores_in_range:
  "scores_in_range s \<Longrightarrow> scores_in_range (run_updates s ops)"
  by (induction s ops rule: run_updates.induct) (simp_all add: UpdateTrustScore_scores_in_range)

lemma InitializeTrustScores_loop_eq:
  "InitializeTrustScores_loop i totalNodes ts =
     (\<lambda>k. if i \<le> k \<and> k < totalNodes then Some (Fin 1) else ts k)"
proof (induction i totalNodes ts rule: InitializeTrustScores_loop.induct)
  case (1 i totalNodes ts)
  show ?case
  proof (cases "i < totalNodes")
    case True
    then have ne: "i \<noteq> - 1"
      by auto
    have step: "i + 1 \<le> k \<longleftrightarrow> i < k" for k
      using ne by (simp add: inc_less_eq_iff)
    have "InitializeTrustScores_loop i totalNodes ts =
        InitializeTrustScores_loop (i + 1) totalNodes (ts(i \<mapsto> Fin 1))"
      using True by (subst InitializeTrustScores_loop.simps) simp
    also have "\<dots> = (\<lambda>k. if i + 1 \<le> k \<and> k < totalNodes then Some (Fin 1)
        else (ts(i \<mapsto> Fin 1)) k)"
      using True by (rule "1.IH")
    also have "\<dots> = (\<lambda>k. if i \<le> k \<and> k < totalNodes then Some (Fin 1) else ts k)"
      using True by (auto simp: step fun_eq_iff)
    finally show ?thesis .
  next
    case False
    then have "InitializeTrustScores_loop i totalNodes ts = ts"
      by (subst InitializeTrustScores_loop.simps) simp
    moreover from False have "\<not> (i \<le> k \<and> k < totalNodes)" for k
      by auto
    ultimately show ?thesis
      by (auto simp: fun_eq_iff)
  qed
qed

lemma InitializeTrustScores_trustScores:
  "trustScores (InitializeTrustScores s totalNodes) =
     (\<lambda>k. if k < totalNodes then Some (Fin 1) else trustScores s k)"
  by (simp add: InitializeTrustScores_def InitializeTrustScores_loop_eq)

lemma InitializeTrustScores_scores_in_range:
  "scores_in_range s \<Longrightarrow> scores_in_range (InitializeTrustScores s totalNodes)"
  by (auto simp: scores_in_range_def InitializeTrustScores_trustScores split: if_splits)

lemma new_scores_in_range: "scores_in_range BlackholeAodv_new"
  by (simp add: scores_in_range_def BlackholeAodv_new_def)

lemma UpdateTrustScore_sandwiched:
  assumes "blacklist_sandwiched s"
  shows "blacklist_sandwiched (UpdateTrustScore s nodeId dropped)"
proof -
  let ?s' = "UpdateTrustScore s nodeId dropped"
  let ?sc = "clamp (dadd (GetTrustScore s nodeId) (score_change dropped)) (Fin 0) (Fin 1)"
  have ts: "trustScores ?s' = (trustScores s)(nodeId \<mapsto> ?sc)"
    by (rule UpdateTrustScore_trustScores)
  have sc: "GetTrustScore ?s' nodeId = ?sc"
    by (simp add: GetTrustScore_def ts)
  have bl: "blacklistedNodes ?s' =
      (if dless ?sc TRUST_THRESHOLD then insert nodeId (blacklistedNodes s)
       else if dle RECOVERY_THRESHOLD ?sc then blacklistedNodes s - {nodeId}
       else blacklistedNodes s)"
    using UpdateTrustScore_blacklistedNodes [of s nodeId dropped] by (simp add: sc Let_def)
  have low: "dless v RECOVERY_THRESHOLD" if "dless v TRUST_THRESHOLD" for v
    using that by (cases v) (auto simp: TRUST_THRESHOLD_val RECOVERY_THRESHOLD_val)
  have mid: "dless ?sc RECOVERY_THRESHOLD"
    if "nodeId \<in> blacklistedNodes s" "\<not> dle RECOVERY_THRESHOLD ?sc"
  proof -
    from that(1) assms obtain v where "trustScores s nodeId = Some v" "dless v RECOVERY_THRESHOLD"
      by (auto simp: blacklist_sandwiched_def)
    then have "GetTrustScore s nodeId \<noteq> NaN"
      by (auto simp: GetTrustScore_def)
    then have "?sc \<noteq> NaN"
      by (rule new_score_not_NaN)
    with that(2) show ?thesis
      by (cases ?sc) (auto simp: RECOVERY_THRESHOLD_val)
  qed
  have "\<exists>v. trustScores ?s' n = Some v \<and> dless v RECOVERY_THRESHOLD"
    if "n \<in> blacklistedNodes ?s'" for n
  proof (cases "n = nodeId")
    case True
    with that low mid show ?thesis
      by (auto simp: ts bl split: if_splits)
  next
    case False
    with that have "n \<in> blacklistedNodes s"
      by (auto simp: bl split: if_splits)
    with assms False show ?thesis
      by (auto simp: blacklist_sandwiched_def ts)
  qed
  moreover have "n \<in> blacklistedNodes ?s'"
    if "trustScores ?s' n = Some v" "dless v TRUST_THRESHOLD" for n v
  proof (cases "n = nodeId")
    case True
    with that show ?thesis
      by (auto simp: ts bl)
  next
    case False
    with that assms have "n \<in> blacklistedNodes s"
      by (auto simp: blacklist_sandwiched_def ts)
    with False show ?thesis
      by (auto simp: bl)
  qed
  ultimately show ?thesis
    unfolding blacklist_sandwiched_def by blast
qed

section \<open>The scores of a node that is dropped and forwarded\<close>

lemma drop_step_1:
  "clamp (dadd (Fin 1) (score_change True)) (Fin 0) (Fin 1) =
     Fin (3602879701896397 / 4503599627370496)"
proof -
  have "round_double (1 + - (3602879701896397 / 18014398509481984)) =
      Fin (3602879701896397 / 4503599627370496)"
    using round_double_eqI [where q = "1 + - (3602879701896397 / 18014398509481984)"
        and k = "- 1" and e = "- 53" and m = 7205759403792794]
    by (simp add: pow2_def)
  then show ?thesis
    by (simp add: score_change_True clamp_def)
qed

lemma drop_step_2:
  "clamp (dadd (Fin (3602879701896397 / 4503599627370496)) (score_change True)) (Fin 0) (Fin 1) =
     Fin (1351079888211149 / 2251799813685248)"
proof -
  have "round_double (3602879701896397 / 4503599627370496 + - (3602879701896397 / 18014398509481984)) =
      Fin (1351079888211149 / 2251799813685248)"
    using round_double_eqI [where q = "3602879701896397 / 4503599627370496 + - (3602879701896397 / 18014398509481984)"
        and k = "- 1" and e = "- 53" and m = 5404319552844596]
    by (simp add: pow2_def)
  then show ?thesis
    by (simp add: score_change_True clamp_def)
qed

lemma drop_step_3:
  "clamp (dadd (Fin (1351079888211149 / 2251799813685248)) (score_change True)) (Fin 0) (Fin 1) =
     Fin (7205759403792795 / 18014398509481984)"
proof -
  have "round_double (1351079888211149 / 2251799813685248 + - (3602879701896397 / 18014398509481984)) =
      Fin (7205759403792795 / 18014398509481984)"
    using round_double_eqI [where q = "1351079888211149 / 2251799813685248 + - (3602879701896397 / 18014398509481984)"
        and k = "- 2" and e = "- 54" and m = 7205759403792795]
    by (simp add: pow2_def)
  then show ?thesis
    by (simp add: score_change_True clamp_def)
qed

lemma drop_step_4:
  "clamp (dadd (Fin (7205759403792795 / 18014398509481984)) (score_change True)) (Fin 0) (Fin 1) =
     Fin (1801439850948199 / 9007199254740992)"
proof -
  have "round_double (7205759403792795 / 18014398509481984 + - (3602879701896397 / 18014398509481984)) =
      Fin (1801439850948199 / 9007199254740992)"
    using round_double_eqI [where q = "7205759403792795 / 18014398509481984 + - (3602879701896397 / 18014398509481984)"
        and k = "- 3" and e = "- 55" and m = 7205759403792796]
    by (simp add: pow2_def)
  then show ?thesis
    by (simp add: score_change_True clamp_def)
qed

lemma drop_step_5:
  "clamp (dadd (Fin (1801439850948199 / 9007199254740992)) (score_change True)) (Fin 0) (Fin 1) =
     Fin (1 / 18014398509481984)"
proof -
  have "round_double (1801439850948199 / 9007199254740992 + - (3602879701896397 / 18014398509481984)) =
      Fin (1 / 18014398509481984)"
    using round_double_eqI [where q = "1801439850948199 / 9007199254740992 + - (3602879701896397 / 18014398509481984)"
        and k = "- 54" and e = "- 106" and m = 4503599627370496]
    by (simp add: pow2_def)
  then show ?thesis
    by (simp add: score_change_True clamp_def)
qed

lemma drop_step_6:
  "clamp (dadd (Fin (1 / 18014398509481984)) (score_change True)) (Fin 0) (Fin 1) =
     Fin 0"
proof -
  have "round_double (1 / 18014398509481984 + - (3602879701896397 / 18014398509481984)) =
      Fin (- (900719925474099 / 4503599627370496))"
    using round_double_eqI [where q = "1 / 18014398509481984 + - (3602879701896397 / 18014398509481984)"
        and k = "- 3" and e = "- 55" and m = "- 7205759403792792"]
    by (simp add: pow2_def)
  then show ?thesis
    by (simp add: score_change_True clamp_def)
qed

lemma forward_step_1:
  "clamp (dadd (Fin (1801439850948199 / 9007199254740992)) (score_change False)) (Fin 0) (Fin 1) =
     Fin (1351079888211149 / 4503599627370496)"
proof -
  have "round_double (1801439850948199 / 9007199254740992 + 3602879701896397 / 36028797018963968) =
      Fin (1351079888211149 / 4503599627370496)"
    using round_double_eqI [where q = "1801439850948199 / 9007199254740992 + 3602879701896397 / 36028797018963968"
        and k = "- 2" and e = "- 54" and m = 5404319552844596]
    by (simp add: pow2_def)
  then show ?thesis
    by (simp add: score_change_False clamp_def)
qed

lemma forward_step_2:
  "clamp (dadd (Fin (1351079888211149 / 4503599627370496)) (score_change False)) (Fin 0) (Fin 1) =
     Fin (3602879701896397 / 9007199254740992)"
proof -
  have "round_double (1351079888211149 / 4503599627370496 + 3602879701896397 / 36028797018963968) =
      Fin (3602879701896397 / 9007199254740992)"
    using round_double_eqI [where q = "1351079888211149 / 4503599627370496 + 3602879701896397 / 36028797018963968"
        and k = "- 2" and e = "- 54" and m = 7205759403792794]
    by (simp add: pow2_def)
  then show ?thesis
    by (simp add: score_change_False clamp_def)
qed

lemma forward_step_3:
  "clamp (dadd (Fin (3602879701896397 / 9007199254740992)) (score_change False)) (Fin 0) (Fin 1) =
     Fin (1 / 2)"
proof -
  have "round_double (3602879701896397 / 9007199254740992 + 3602879701896397 / 36028797018963968) =
      Fin (1 / 2)"
    using round_double_eqI [where q = "3602879701896397 / 9007199254740992 + 3602879701896397 / 36028797018963968"
        and k = "- 1" and e = "- 53" and m = 4503599627370496]
    by (simp add: pow2_def)
  then show ?thesis
    by (simp add: score_change_False clamp_def)
qed

lemma forward_step_4:
  "clamp (dadd (Fin (1 / 2)) (score_change False)) (Fin 0) (Fin 1) =
     Fin (5404319552844595 / 9007199254740992)"
proof -
  have "round_double (1 / 2 + 3602879701896397 / 36028797018963968) =
      Fin (5404319552844595 / 9007199254740992)"
    using round_double_eqI [where q = "1 / 2 + 3602879701896397 / 36028797018963968"
        and k = "- 1" and e = "- 53" and m = 5404319552844595]
    by (simp add: pow2_def)
  then show ?thesis
    by (simp add: score_change_False clamp_def)
qed

lemma forward_step_5:
  "clamp (dadd (Fin (5404319552844595 / 9007199254740992)) (score_change False)) (Fin 0) (Fin 1) =
     Fin (3152519739159347 / 4503599627370496)"
proof -
  have "round_double (5404319552844595 / 9007199254740992 + 3602879701896397 / 36028797018963968) =
      Fin (3152519739159347 / 4503599627370496)"
    using round_double_eqI [where q = "5404319552844595 / 9007199254740992 + 3602879701896397 / 36028797018963968"
        and k = "- 1" and e = "- 53" and m = 6305039478318694]
    by (simp add: pow2_def)
  then show ?thesis
    by (simp add: score_change_False clamp_def)
qed

lemma step_view:
  assumes "GetTrustScore s n = v \<and> (n \<in> blacklistedNodes s \<longleftrightarrow> b)"
    and "clamp (dadd v (score_change d)) (Fin 0) (Fin 1) = v'"
    and "b' \<longleftrightarrow> dless v' TRUST_THRESHOLD \<or> (\<not> dle RECOVERY_THRESHOLD v' \<and> b)"
  shows "GetTrustScore (UpdateTrustScore s n d) n = v' \<and>
         (n \<in> blacklistedNodes (UpdateTrustScore s n d) \<longleftrightarrow> b')"
proof -
  have sc: "GetTrustScore (UpdateTrustScore s n d) n = v'"
    using assms(1,2) by (simp add: GetTrustScore_def UpdateTrustScore_trustScores)
  then show ?thesis
    using assms(1,3) by (simp add: UpdateTrustScore_blacklistedNodes)
qed

lemmas thresholds = TRUST_THRESHOLD_val RECOVERY_THRESHOLD_val

lemma drops_from_1:
  assumes "GetTrustScore s n = Fin 1" "n \<notin> blacklistedNodes s"
  defines "D \<equiv> \<lambda>s. UpdateTrustScore s n True"
  shows "GetTrustScore (D s) n = Fin (3602879701896397 / 4503599627370496) \<and>
           (n \<in> blacklistedNodes (D s) \<longleftrightarrow> False)"
    and "GetTrustScore (D (D s)) n = Fin (1351079888211149 / 2251799813685248) \<and>
           (n \<in> blacklistedNodes (D (D s)) \<longleftrightarrow> False)"
    and "GetTrustScore (D (D (D s))) n = Fin (7205759403792795 / 18014398509481984) \<and>
           (n \<in> blacklistedNodes (D (D (D s))) \<longleftrightarrow> False)"
    and "GetTrustScore (D (D (D (D s)))) n = Fin (1801439850948199 / 9007199254740992) \<and>
           (n \<in> blacklistedNodes (D (D (D (D s)))) \<longleftrightarrow> True)"
    and "GetTrustScore (D (D (D (D (D s))))) n = Fin (1 / 18014398509481984) \<and>
           (n \<in> blacklistedNodes (D (D (D (D (D s))))) \<longleftrightarrow> True)"
    and "GetTrustScore (D (D (D (D (D (D s)))))) n = Fin 0 \<and>
           (n \<in> blacklistedNodes (D (D (D (D (D (D s)))))) \<longleftrightarrow> True)"
proof -
  have v0: "GetTrustScore s n = Fin 1 \<and> (n \<in> blacklistedNodes s \<longleftrightarrow> False)"
    using assms by simp
  show v1: "GetTrustScore (D s) n = Fin (3602879701896397 / 4503599627370496) \<and>
      (n \<in> blacklistedNodes (D s) \<longleftrightarrow> False)"
    unfolding D_def by (rule step_view [OF v0 drop_step_1]) (simp add: thresholds)
  show v2: "GetTrustScore (D (D s)) n = Fin (1351079888211149 / 2251799813685248) \<and>
      (n \<in> blacklistedNodes (D (D s)) \<longleftrightarrow> False)"
    using v1 unfolding D_def by (rule step_view [OF _ drop_step_2]) (simp add: thresholds)
  show v3: "GetTrustScore (D (D (D s))) n = Fin (7205759403792795 / 18014398509481984) \<and>
      (n \<in> blacklistedNodes (D (D (D s))) \<longleftrightarrow> False)"
    using v2 unfolding D_def by (rule step_view [OF _ drop_step_3]) (simp add: thresholds)
  show v4: "GetTrustScore (D (D (D (D s)))) n = Fin (1801439850948199 / 9007199254740992) \<and>
      (n \<in> blacklistedNodes (D (D (D (D s)))) \<longleftrightarrow> True)"
    using v3 unfolding D_def by (rule step_view [OF _ drop_step_4]) (simp add: thresholds)
  show v5: "GetTrustScore (D (D (D (D (D s))))) n = Fin (1 / 18014398509481984) \<and>
      (n \<in> blacklistedNodes (D (D (D (D (D s))))) \<longleftrightarrow> True)"
    using v4 unfolding D_def by (rule step_view [OF _ drop_step_5]) (simp add: thresholds)
  show "GetTrustScore (D (D (D (D (D (D s)))))) n = Fin 0 \<and>
      (n \<in> blacklistedNodes (D (D (D (D (D (D s)))))) \<longleftrightarrow> True)"
    using v5 unfolding D_def by (rule step_view [OF _ drop_step_6]) (simp add: thresholds)
qed

lemma forwards_from_low:
  assumes "GetTrustScore s n = Fin (1801439850948199 / 9007199254740992)"
    "n \<in> blacklistedNodes s"
  defines "F \<equiv> \<lambda>s. UpdateTrustScore s n False"
  shows "GetTrustScore (F s) n = Fin (1351079888211149 / 4503599627370496) \<and>
           (n \<in> blacklistedNodes (F s) \<longleftrightarrow> True)"
    and "GetTrustScore (F (F s)) n = Fin (3602879701896397 / 9007199254740992) \<and>
           (n \<in> blacklistedNodes (F (F s)) \<longleftrightarrow> True)"
    and "GetTrustScore (F (F (F s))) n = Fin (1 / 2) \<and>
           (n \<in> blacklistedNodes (F (F (F s))) \<longleftrightarrow> True)"
    and "GetTrustScore (F (F (F (F s)))) n = Fin (5404319552844595 / 9007199254740992) \<and>
           (n \<in> blacklistedNodes (F (F (F (F s)))) \<longleftrightarrow> False)"
    and "GetTrustScore (F (F (F (F (F s))))) n = Fin (3152519739159347 / 4503599627370496) \<and>
           (n \<in> blacklistedNodes (F (F (F (F (F s))))) \<longleftrightarrow> False)"
proof -
  have v0: "GetTrustScore s n = Fin (1801439850948199 / 9007199254740992) \<and>
      (n \<in> blacklistedNodes s \<longleftrightarrow> True)"
    using assms by simp
  show v1: "GetTrustScore (F s) n = Fin (1351079888211149 / 4503599627370496) \<and>
      (n \<in> blacklistedNodes (F s) \<longleftrightarrow> True)"
    unfolding F_def by (rule step_view [OF v0 forward_step_1]) (simp add: thresholds)
  show v2: "GetTrustScore (F (F s)) n = Fin (3602879701896397 / 9007199254740992) \<and>
      (n \<in> blacklistedNodes (F (F s)) \<longleftrightarrow> True)"
    using v1 unfolding F_def by (rule step_view [OF _ forward_step_2]) (simp add: thresholds)
  show v3: "GetTrustScore (F (F (F s))) n = Fin (1 / 2) \<and>
      (n \<in> blacklistedNodes (F (F (F s))) \<longleftrightarrow> True)"
    using v2 unfolding F_def by (rule step_view [OF _ forward_step_3]) (simp add: thresholds)
  show v4: "GetTrustScore (F (F (F (F s)))) n = Fin (5404319552844595 / 9007199254740992) \<and>
      (n \<in> blacklistedNodes (F (F (F (F s)))) \<longleftrightarrow> False)"
    using v3 unfolding F_def by (rule step_view [OF _ forward_step_4]) (simp add: thresholds)
  show "GetTrustScore (F (F (F (F (F s))))) n = Fin (3152519739159347 / 4503599627370496) \<and>
      (n \<in> blacklistedNodes (F (F (F (F (F s))))) \<longleftrightarrow> False)"
    using v4 unfolding F_def by (rule step_view [OF _ forward_step_5]) (simp add: thresholds)
qed

section \<open>Hysteresis of the blacklist\<close>

lemma thresholds_exclusive: "dle RECOVERY_THRESHOLD v \<Longrightarrow> \<not> dless v TRUST_THRESHOLD"
  by (cases v) (auto simp: thresholds)

lemma dead_zone: "dless TRUST_THRESHOLD v \<Longrightarrow> dless v RECOVERY_THRESHOLD \<Longrightarrow>
    \<not> dless v TRUST_THRESHOLD \<and> \<not> dle RECOVERY_THRESHOLD v"
  by (cases v) (auto simp: thresholds)

lemma example_run:
  assumes "GetTrustScore s0 n = Fin 1" "n \<notin> blacklistedNodes s0"
  shows "(let s4 = run_updates s0 [(n, True), (n, True), (n, True), (n, True)];
           s6 = run_updates s4 [(n, False), (n, False)];
           s7 = run_updates s6 [(n, False)];
           s9 = run_updates s7 [(n, False), (n, False)]
       in GetTrustScore s4 n = Fin (1801439850948199 / 9007199254740992) \<and>
          n \<in> blacklistedNodes s4 \<and>
          GetTrustScore s6 n = Fin (3602879701896397 / 9007199254740992) \<and>
          n \<in> blacklistedNodes s6 \<and>
          GetTrustScore s7 n = Fin (1 / 2) \<and>
          n \<in> blacklistedNodes s7 \<and>
          GetTrustScore s9 n = Fin (3152519739159347 / 4503599627370496) \<and>
          n \<notin> blacklistedNodes s9)"
proof -
  let ?s4 = "run_updates s0 [(n, True), (n, True), (n, True), (n, True)]"
  have low: "GetTrustScore ?s4 n = Fin (1801439850948199 / 9007199254740992)"
    "n \<in> blacklistedNodes ?s4"
    using drops_from_1(4) [OF assms] by simp_all
  show ?thesis
    using low forwards_from_low [OF low] by (simp add: Let_def)
qed

text \<open>
  Claim C2. The blacklist follows two thresholds. A node that is not blacklisted is added
  by an update exactly when its score after clamping is below \<open>0.3\<close>; a blacklisted
  node is removed exactly when that score is at least \<open>0.6\<close>; a blacklisted node whose
  score lies strictly between the thresholds stays blacklisted; no other node's membership
  changes. For a node at \<open>1.0\<close>: four drops bring it to \<open>0.20000000000000007\<close> and
  onto the blacklist; it is still there at \<open>0.4\<close> and at \<open>0.5\<close> after two and
  three forwards, and off the list at \<open>0.7\<close> after five (it leaves at \<open>0.6\<close>).
\<close>

theorem blacklist_hysteresis:
  "(let s' = UpdateTrustScore s nodeId dropped; score = GetTrustScore s' nodeId in
      (nodeId \<notin> blacklistedNodes s \<longrightarrow>
         (nodeId \<in> blacklistedNodes s' \<longleftrightarrow> dless score TRUST_THRESHOLD)) \<and>
      (nodeId \<in> blacklistedNodes s \<longrightarrow>
         (nodeId \<notin> blacklistedNodes s' \<longleftrightarrow> dle RECOVERY_THRESHOLD score)) \<and>
      (nodeId \<in> blacklistedNodes s \<and> dless TRUST_THRESHOLD score \<and>
         dless score RECOVERY_THRESHOLD \<longrightarrow> nodeId \<in> blacklistedNodes s') \<and>
      (\<forall>n. n \<noteq> nodeId \<longrightarrow> (n \<in> blacklistedNodes s' \<longleftrightarrow> n \<in> blacklistedNodes s))) \<and>
   TRUST_THRESHOLD = Fin (5404319552844595 / 18014398509481984) \<and>
   RECOVERY_THRESHOLD = Fin (5404319552844595 / 9007199254740992) \<and>
   (GetTrustScore s0 n = Fin 1 \<and> n \<notin> blacklistedNodes s0 \<longrightarrow>
      (let s4 = run_updates s0 [(n, True), (n, True), (n, True), (n, True)];
           s6 = run_updates s4 [(n, False), (n, False)];
           s7 = run_updates s6 [(n, False)];
           s9 = run_updates s7 [(n, False), (n, False)]
       in GetTrustScore s4 n = Fin (1801439850948199 / 9007199254740992) \<and>
          n \<in> blacklistedNodes s4 \<and>
          GetTrustScore s6 n = Fin (3602879701896397 / 9007199254740992) \<and>
          n \<in> blacklistedNodes s6 \<and>
          GetTrustScore s7 n = Fin (1 / 2) \<and>
          n \<in> blacklistedNodes s7 \<and>
          GetTrustScore s9 n = Fin (3152519739159347 / 4503599627370496) \<and>
          n \<notin> blacklistedNodes s9))"
proof -
  let ?s' = "UpdateTrustScore s nodeId dropped"
  let ?sc = "GetTrustScore ?s' nodeId"
  have bl: "blacklistedNodes ?s' =
      (if dless ?sc TRUST_THRESHOLD then insert nodeId (blacklistedNodes s)
       else if dle RECOVERY_THRESHOLD ?sc then blacklistedNodes s - {nodeId}
       else blacklistedNodes s)"
    using UpdateTrustScore_blacklistedNodes [of s nodeId dropped] by (simp add: Let_def)
  have a: "nodeId \<notin> blacklistedNodes s \<longrightarrow>
      (nodeId \<in> blacklistedNodes ?s' \<longleftrightarrow> dless ?sc TRUST_THRESHOLD)"
    by (simp add: bl)
  have b: "nodeId \<in> blacklistedNodes s \<longrightarrow>
      (nodeId \<notin> blacklistedNodes ?s' \<longleftrightarrow> dle RECOVERY_THRESHOLD ?sc)"
    using thresholds_exclusive [of ?sc] by (auto simp: bl)
  have c: "nodeId \<in> blacklistedNodes s \<and> dless TRUST_THRESHOLD ?sc \<and>
      dless ?sc RECOVERY_THRESHOLD \<longrightarrow> nodeId \<in> blacklistedNodes ?s'"
    using dead_zone [of ?sc] by (auto simp: bl)
  have d: "\<forall>n. n \<noteq> nodeId \<longrightarrow> (n \<in> blacklistedNodes ?s' \<longleftrightarrow> n \<in> blacklistedNodes s)"
    by (simp add: bl)
  from a b c d show ?thesis
    using example_run [of s0 n] by (simp only: Let_def thresholds) blast
qed

lemma score_step:
  assumes "GetTrustScore s n = v" "clamp (dadd v (score_change d)) (Fin 0) (Fin 1) = v'"
  shows "GetTrustScore (UpdateTrustScore s n d) n = v'"
  using assms by (simp add: GetTrustScore_def UpdateTrustScore_trustScores)

lemma drops_score:
  assumes "GetTrustScore s n = Fin 1"
  shows "GetTrustScore (run_updates s [(n, True), (n, True), (n, True), (n, True), (n, True)]) n
      = Fin (1 / 18014398509481984)"
    and "GetTrustScore
      (run_updates s [(n, True), (n, True), (n, True), (n, True), (n, True), (n, True)]) n
      = Fin 0"
proof -
  let ?D = "\<lambda>s. UpdateTrustScore s n True"
  note v1 = score_step [OF assms drop_step_1]
  note v2 = score_step [OF v1 drop_step_2]
  note v3 = score_step [OF v2 drop_step_3]
  note v4 = score_step [OF v3 drop_step_4]
  note v5 = score_step [OF v4 drop_step_5]
  note v6 = score_step [OF v5 drop_step_6]
  show "GetTrustScore (run_updates s [(n, True), (n, True), (n, True), (n, True), (n, True)]) n
      = Fin (1 / 18014398509481984)"
    using v5 by simp
  show "GetTrustScore
      (run_updates s [(n, True), (n, True), (n, True), (n, True), (n, True), (n, True)]) n
      = Fin 0"
    using v6 by simp
qed

lemma new_view:
  "GetTrustScore BlackholeAodv_new n = Fin 1" "n \<notin> blacklistedNodes BlackholeAodv_new"
  by (simp_all add: GetTrustScore_def BlackholeAodv_new_def)

theorem blacklist_hysteresis_witness:
  "(let s3 = run_updates BlackholeAodv_new [(7, True), (7, True), (7, True)];
        s4 = UpdateTrustScore s3 7 True;
        s5 = UpdateTrustScore s4 7 False;
        s8 = run_updates s5 [(7, False), (7, False), (7, False)]
    in 7 \<notin> blacklistedNodes s3 \<and> dless (GetTrustScore s4 7) TRUST_THRESHOLD \<and>
       7 \<in> blacklistedNodes s4 \<and>
       dless TRUST_THRESHOLD (GetTrustScore s5 7) \<and>
       dless (GetTrustScore s5 7) RECOVERY_THRESHOLD \<and> 7 \<in> blacklistedNodes s5 \<and>
       dle RECOVERY_THRESHOLD (GetTrustScore s8 7) \<and> 7 \<notin> blacklistedNodes s8 \<and>
       (3::32 word) \<noteq> 7 \<and> 3 \<notin> blacklistedNodes s4)"
proof -
  note d = drops_from_1 [OF new_view, of 7]
  have low: "GetTrustScore (run_updates BlackholeAodv_new
        [(7, True), (7, True), (7, True), (7, True)]) 7 =
      Fin (1801439850948199 / 9007199254740992)"
    "7 \<in> blacklistedNodes (run_updates BlackholeAodv_new
        [(7, True), (7, True), (7, True), (7, True)])"
    using d(4) by simp_all
  note f = forwards_from_low [OF low]
  let ?s3 = "run_updates BlackholeAodv_new [(7, True), (7, True), (7, True)]"
  have other: "3 \<notin> blacklistedNodes ?s3"
    by (simp add: UpdateTrustScore_blacklistedNodes Let_def BlackholeAodv_new_def)
  show ?thesis
    using blacklist_hysteresis [of ?s3 7 True BlackholeAodv_new 7] d f other
    by (simp add: Let_def thresholds)
qed

section \<open>The score after one update\<close>

lemma sum_1_0_drop:
  "round_double (1 + - (3602879701896397 / 18014398509481984)) =
     Fin (3602879701896397 / 4503599627370496)"
  using round_double_eqI [where q = "1 + - (3602879701896397 / 18014398509481984)"
      and k = "- 1" and e = "- 53" and m = 7205759403792794]
  by (simp add: pow2_def)

lemma sum_1_0_forward:
  "round_double (1 + 3602879701896397 / 36028797018963968) =
     Fin (2476979795053773 / 2251799813685248)"
  using round_double_eqI [where q = "1 + 3602879701896397 / 36028797018963968"
      and k = 0 and e = "- 52" and m = 4953959590107546]
  by (simp add: pow2_def)

lemma sum_low_drop:
  "round_double (1 / 18014398509481984 + - (3602879701896397 / 18014398509481984)) =
     Fin (- (900719925474099 / 4503599627370496))"
  using round_double_eqI
      [where q = "1 / 18014398509481984 + - (3602879701896397 / 18014398509481984)"
        and k = "- 3" and e = "- 55" and m = "- 7205759403792792"]
  by (simp add: pow2_def)

lemma clamp_cases:
  "dless v (Fin 0) \<Longrightarrow> clamp v (Fin 0) (Fin 1) = Fin 0"
  "dless (Fin 1) v \<Longrightarrow> clamp v (Fin 0) (Fin 1) = Fin 1"
  "dle (Fin 0) v \<Longrightarrow> dle v (Fin 1) \<Longrightarrow> clamp v (Fin 0) (Fin 1) = v"
  by (cases v; auto simp: clamp_def)+

text \<open>
  Claim C1. After \<open>UpdateTrustScore s nodeId dropped\<close> the node has an entry. Its
  score is computed from the old score (\<open>1.0\<close> when the node had no entry) plus the
  change, the double \<open>-0.2\<close> for a drop and the double \<open>0.1\<close> otherwise, added as
  doubles: a sum below \<open>0.0\<close> is stored as \<open>0.0\<close>, a sum above \<open>1.0\<close> as
  \<open>1.0\<close>, a sum in between as it is. So the stored score lies in \<open>[0.0, 1.0]\<close>
  whenever the old score is a number. No other entry changes.
\<close>

theorem UpdateTrustScore_score:
  "(let delta = (if dropped then Fin (- (3602879701896397 / 18014398509481984))
                 else Fin (3602879701896397 / 36028797018963968));
        total = dadd (GetTrustScore s nodeId) delta;
        score = GetTrustScore (UpdateTrustScore s nodeId dropped) nodeId
    in score = clamp total (Fin 0) (Fin 1) \<and>
       (dless total (Fin 0) \<longrightarrow> score = Fin 0) \<and>
       (dless (Fin 1) total \<longrightarrow> score = Fin 1) \<and>
       (dle (Fin 0) total \<and> dle total (Fin 1) \<longrightarrow> score = total) \<and>
       (GetTrustScore s nodeId \<noteq> NaN \<longrightarrow> dle (Fin 0) score \<and> dle score (Fin 1)) \<and>
       trustScores (UpdateTrustScore s nodeId dropped) nodeId = Some score)
   \<and> (trustScores s nodeId = None \<longrightarrow> GetTrustScore s nodeId = Fin 1)
   \<and> (\<forall>n. n \<noteq> nodeId \<longrightarrow>
         trustScores (UpdateTrustScore s nodeId dropped) n = trustScores s n)"
proof -
  let ?delta = "if dropped then Fin (- (3602879701896397 / 18014398509481984))
                 else Fin (3602879701896397 / 36028797018963968)"
  let ?total = "dadd (GetTrustScore s nodeId) ?delta"
  let ?score = "GetTrustScore (UpdateTrustScore s nodeId dropped) nodeId"
  have change: "score_change dropped = ?delta"
    by (simp add: score_change_True score_change_False)
  have eq: "?score = clamp ?total (Fin 0) (Fin 1)"
    by (simp only: GetTrustScore_def UpdateTrustScore_trustScores change) simp
  have stored: "trustScores (UpdateTrustScore s nodeId dropped) nodeId = Some ?score"
    by (simp add: GetTrustScore_def UpdateTrustScore_trustScores)
  have range: "dle (Fin 0) ?score \<and> dle ?score (Fin 1)" if "GetTrustScore s nodeId \<noteq> NaN"
  proof -
    from that have "?total \<noteq> NaN"
      by (auto simp: dadd_Fin_not_NaN)
    then show ?thesis
      unfolding eq by (rule clamp_unit_range)
  qed
  have absent: "trustScores s nodeId = None \<longrightarrow> GetTrustScore s nodeId = Fin 1"
    by (simp add: GetTrustScore_def)
  have others: "\<forall>n. n \<noteq> nodeId \<longrightarrow>
      trustScores (UpdateTrustScore s nodeId dropped) n = trustScores s n"
    by (simp add: UpdateTrustScore_trustScores)
  show ?thesis
    unfolding Let_def using eq stored range absent others clamp_cases [of ?total]
    by (simp only:) blast
qed

theorem UpdateTrustScore_score_witness:
  "GetTrustScore BlackholeAodv_new 7 = Fin 1 \<and> trustScores BlackholeAodv_new 7 = None \<and>
   Fin 1 \<noteq> NaN \<and>
   GetTrustScore (UpdateTrustScore BlackholeAodv_new 7 True) 7 =
     Fin (3602879701896397 / 4503599627370496) \<and>
   dless (Fin 1) (dadd (Fin 1) (Fin (3602879701896397 / 36028797018963968))) \<and>
   GetTrustScore (UpdateTrustScore BlackholeAodv_new 7 False) 7 = Fin 1 \<and>
   GetTrustScore
     (run_updates BlackholeAodv_new [(7, True), (7, True), (7, True), (7, True), (7, True)]) 7
     = Fin (1 / 18014398509481984) \<and>
   dless (dadd (Fin (1 / 18014398509481984)) (Fin (- (3602879701896397 / 18014398509481984))))
     (Fin 0) \<and>
   GetTrustScore
     (UpdateTrustScore
        (run_updates BlackholeAodv_new [(7, True), (7, True), (7, True), (7, True), (7, True)])
        7 True) 7 = Fin 0 \<and>
   (3::32 word) \<noteq> 7 \<and>
   trustScores (UpdateTrustScore BlackholeAodv_new 7 True) 3 = trustScores BlackholeAodv_new 3"
proof -
  let ?s5 = "run_updates BlackholeAodv_new
      [(7, True), (7, True), (7, True), (7, True), (7, True)]"
  have five: "GetTrustScore ?s5 7 = Fin (1 / 18014398509481984)"
    by (rule drops_score(1) [OF new_view(1)])
  have a: "GetTrustScore (UpdateTrustScore BlackholeAodv_new 7 True) 7 =
      Fin (3602879701896397 / 4503599627370496) \<and>
      trustScores (UpdateTrustScore BlackholeAodv_new 7 True) 3 = trustScores BlackholeAodv_new 3"
    using UpdateTrustScore_score [of True BlackholeAodv_new 7] sum_1_0_drop
    by (simp add: Let_def new_view(1) clamp_def)
  have b: "GetTrustScore (UpdateTrustScore BlackholeAodv_new 7 False) 7 = Fin 1"
    using UpdateTrustScore_score [of False BlackholeAodv_new 7] sum_1_0_forward
    by (simp add: Let_def new_view(1) clamp_def)
  have c: "GetTrustScore (UpdateTrustScore ?s5 7 True) 7 = Fin 0"
    using UpdateTrustScore_score [of True ?s5 7] sum_low_drop five
    by (simp add: Let_def clamp_def)
  have n: "trustScores BlackholeAodv_new 7 = None"
    by (simp add: BlackholeAodv_new_def)
  show ?thesis
    using a b c five n sum_1_0_forward sum_low_drop
    by (simp add: new_view(1))
qed

text \<open>
  Claim C3, amended. Every stored score lies in \<open>[0.0, 1.0]\<close> in a new module, after
  \<open>InitializeTrustScores\<close>, and after every sequence of updates of a ledger whose
  scores lie in that interval. Five drops of a node at \<open>1.0\<close> leave the double
  \<open>2^-54\<close> (about \<open>5.55e-17\<close>), which is not negative and not zero: the sums
  \<open>1.0 - 0.2\<close> and \<open>0.8 - 0.2\<close> are rounded upwards and the later ones are exact.
  The sixth drop gives \<open>0.0\<close>.
\<close>

theorem trust_scores_in_range:
  "scores_in_range BlackholeAodv_new \<and>
   scores_in_range (InitializeTrustScores BlackholeAodv_new totalNodes) \<and>
   (scores_in_range s \<longrightarrow> scores_in_range (run_updates s ops)) \<and>
   (GetTrustScore s0 n = Fin 1 \<longrightarrow>
      GetTrustScore (run_updates s0 [(n, True), (n, True), (n, True), (n, True), (n, True)]) n
        = Fin (1 / 18014398509481984) \<and>
      GetTrustScore
        (run_updates s0 [(n, True), (n, True), (n, True), (n, True), (n, True), (n, True)]) n
        = Fin 0)"
  using new_scores_in_range InitializeTrustScores_scores_in_range [OF new_scores_in_range]
    run_updates_scores_in_range [of s ops] drops_score [of s0 n]
  by blast

theorem trust_scores_in_range_witness:
  "scores_in_range BlackholeAodv_new \<and>
   scores_in_range (run_updates BlackholeAodv_new [(7, True), (3, False)]) \<and>
   GetTrustScore BlackholeAodv_new 7 = Fin 1 \<and>
   GetTrustScore
     (run_updates BlackholeAodv_new [(7, True), (7, True), (7, True), (7, True), (7, True)]) 7
     = Fin (1 / 18014398509481984) \<and>
   dle (Fin 0) (Fin (1 / 18014398509481984)) \<and> dle (Fin (1 / 18014398509481984)) (Fin 1)"
  using trust_scores_in_range [where s = BlackholeAodv_new and ops = "[(7, True), (3, False)]"
      and ?s0.0 = BlackholeAodv_new and n = 7]
    new_view(1) [of 7]
  by simp

text \<open>
  Claim C3 as stated: five drops from \<open>1.0\<close> do not give exactly \<open>0.0\<close>.
\<close>

theorem five_drops_counterexample:
  "GetTrustScore
     (run_updates BlackholeAodv_new [(7, True), (7, True), (7, True), (7, True), (7, True)]) 7
     = Fin (1 / 18014398509481984) \<and>
   GetTrustScore
     (run_updates BlackholeAodv_new [(7, True), (7, True), (7, True), (7, True), (7, True)]) 7
     \<noteq> Fin 0"
  using drops_score(1) [OF new_view(1), of 7] by simp

lemma new_sandwiched: "blacklist_sandwiched BlackholeAodv_new"
  by (simp add: blacklist_sandwiched_def BlackholeAodv_new_def)

lemma InitializeTrustScores_new_sandwiched:
  "blacklist_sandwiched (InitializeTrustScores BlackholeAodv_new totalNodes)"
proof -
  have "blacklistedNodes (InitializeTrustScores BlackholeAodv_new totalNodes) = {}"
    by (simp add: InitializeTrustScores_def BlackholeAodv_new_def)
  moreover have "trustScores (InitializeTrustScores BlackholeAodv_new totalNodes) n = Some v
      \<Longrightarrow> \<not> dless v TRUST_THRESHOLD" for n v
    by (auto simp: InitializeTrustScores_trustScores BlackholeAodv_new_def thresholds
        split: if_splits)
  ultimately show ?thesis
    by (auto simp: blacklist_sandwiched_def)
qed

lemma sandwiched_counters:
  "blacklist_sandwiched (s\<lparr>totalDroppedPackets := x\<rparr>) = blacklist_sandwiched s"
  "blacklist_sandwiched (s\<lparr>totalForwardedPackets := x\<rparr>) = blacklist_sandwiched s"
  "blacklist_sandwiched (s\<lparr>dropProbability := p\<rparr>) = blacklist_sandwiched s"
  by (simp_all add: blacklist_sandwiched_def)

lemma RouteInput_sandwiched:
  "blacklist_sandwiched s \<Longrightarrow>
     blacklist_sandwiched (snd (snd (RouteInput s header dev ucb lcb r)))"
  by (auto simp: RouteInput_def deliver_or_forward_def Let_def UpdateTrustScore_sandwiched
      sandwiched_counters split: option.splits)

lemma SetDropProbability_sandwiched:
  "blacklist_sandwiched s \<Longrightarrow> blacklist_sandwiched (SetDropProbability s p)"
  by (simp add: SetDropProbability_def sandwiched_counters)

lemma run_updates_sandwiched:
  "blacklist_sandwiched s \<Longrightarrow> blacklist_sandwiched (run_updates s ops)"
  by (induction s ops rule: run_updates.induct) (simp_all add: UpdateTrustScore_sandwiched)

lemma InitializeTrustScores_blacklistedNodes:
  "blacklistedNodes (InitializeTrustScores s totalNodes) = blacklistedNodes s"
  by (simp add: InitializeTrustScores_def)

lemma InitializeTrustScores_sandwiched:
  assumes "blacklist_sandwiched s" "\<forall>n \<in> blacklistedNodes s. totalNodes \<le> n"
  shows "blacklist_sandwiched (InitializeTrustScores s totalNodes)"
proof -
  let ?s' = "InitializeTrustScores s totalNodes"
  have a: "\<exists>v. trustScores ?s' n = Some v \<and> dless v RECOVERY_THRESHOLD"
    if "n \<in> blacklistedNodes ?s'" for n
  proof -
    from that have n: "n \<in> blacklistedNodes s"
      by (simp only: InitializeTrustScores_blacklistedNodes)
    with assms(2) have "\<not> n < totalNodes"
      by auto
    then have "trustScores ?s' n = trustScores s n"
      by (simp add: InitializeTrustScores_trustScores)
    moreover from n assms(1) have "\<exists>v. trustScores s n = Some v \<and> dless v RECOVERY_THRESHOLD"
      unfolding blacklist_sandwiched_def by blast
    ultimately show ?thesis
      by simp
  qed
  have b: "n \<in> blacklistedNodes ?s'"
    if "trustScores ?s' n = Some v \<and> dless v TRUST_THRESHOLD" for n v
  proof (cases "n < totalNodes")
    case True
    with that have "v = Fin 1"
      by (simp add: InitializeTrustScores_trustScores)
    with that have False
      by (simp add: thresholds)
    then show ?thesis ..
  next
    case False
    with that have "trustScores s n = Some v \<and> dless v TRUST_THRESHOLD"
      by (simp add: InitializeTrustScores_trustScores)
    with assms(1) have "n \<in> blacklistedNodes s"
      unfolding blacklist_sandwiched_def by blast
    then show ?thesis
      by (simp only: InitializeTrustScores_blacklistedNodes)
  qed
  from a b show ?thesis
    unfolding blacklist_sandwiched_def by blast
qed

lemma UpdateTrustScore_blacklist_subset:
  "blacklistedNodes (UpdateTrustScore s nodeId dropped) \<subseteq> insert nodeId (blacklistedNodes s)"
  by (auto simp: UpdateTrustScore_blacklistedNodes Let_def split: if_splits)

lemma run_updates_blacklist_subset:
  "blacklistedNodes (run_updates s ops) \<subseteq> blacklistedNodes s \<union> fst ` set ops"
proof (induction s ops rule: run_updates.induct)
  case (1 s)
  then show ?case by simp
next
  case (2 s nodeId dropped ops)
  then show ?case
    using UpdateTrustScore_blacklist_subset [of s nodeId dropped] by auto
qed

text \<open>
  Claim C10, amended. In a new module, after \<open>InitializeTrustScores\<close> on a new module,
  and after any sequence of updates from either, every blacklisted node has an entry with
  a score below \<open>0.6\<close>, and every node with a stored score below \<open>0.3\<close> is
  blacklisted. \<open>UpdateTrustScore\<close>, \<open>RouteInput\<close> and \<open>SetDropProbability\<close> keep
  the predicate. \<open>InitializeTrustScores\<close> keeps it when no blacklisted node is below
  \<open>totalNodes\<close>, as in a new module.
\<close>

theorem blacklist_between_thresholds:
  "blacklist_sandwiched BlackholeAodv_new \<and>
   blacklist_sandwiched (InitializeTrustScores BlackholeAodv_new totalNodes) \<and>
   (blacklist_sandwiched s \<longrightarrow> blacklist_sandwiched (UpdateTrustScore s nodeId dropped)) \<and>
   blacklist_sandwiched (run_updates BlackholeAodv_new ops) \<and>
   blacklist_sandwiched (run_updates (InitializeTrustScores BlackholeAodv_new totalNodes) ops) \<and>
   (blacklist_sandwiched s \<longrightarrow>
      blacklist_sandwiched (snd (snd (RouteInput s header dev ucb lcb r))) \<and>
      blacklist_sandwiched (SetDropProbability s p)) \<and>
   (blacklist_sandwiched s \<and> (\<forall>n \<in> blacklistedNodes s. totalNodes \<le> n) \<longrightarrow>
      blacklist_sandwiched (InitializeTrustScores s totalNodes))"
proof -
  have init: "blacklist_sandwiched (InitializeTrustScores BlackholeAodv_new totalNodes)"
    by (rule InitializeTrustScores_new_sandwiched)
  have runs: "blacklist_sandwiched (run_updates BlackholeAodv_new ops)"
    "blacklist_sandwiched (run_updates (InitializeTrustScores BlackholeAodv_new totalNodes) ops)"
    by (rule run_updates_sandwiched, rule new_sandwiched)
      (rule run_updates_sandwiched, rule init)
  have steps: "blacklist_sandwiched (UpdateTrustScore s nodeId dropped)"
    "blacklist_sandwiched (snd (snd (RouteInput s header dev ucb lcb r)))"
    "blacklist_sandwiched (SetDropProbability s p)" if "blacklist_sandwiched s"
    using that
    by (rule UpdateTrustScore_sandwiched, rule RouteInput_sandwiched,
        rule SetDropProbability_sandwiched)
  have reinit: "blacklist_sandwiched (InitializeTrustScores s totalNodes)"
    if "blacklist_sandwiched s \<and> (\<forall>n \<in> blacklistedNodes s. totalNodes \<le> n)"
    using that by (intro InitializeTrustScores_sandwiched) simp_all
  from new_sandwiched init runs steps reinit show ?thesis
    by (intro conjI impI) simp_all
qed

theorem blacklist_between_thresholds_witness:
  "blacklist_sandwiched
     (run_updates BlackholeAodv_new [(7, True), (7, True), (7, True), (7, True)]) \<and>
   7 \<in> blacklistedNodes
     (run_updates BlackholeAodv_new [(7, True), (7, True), (7, True), (7, True)]) \<and>
   trustScores (run_updates BlackholeAodv_new [(7, True), (7, True), (7, True), (7, True)]) 7 =
     Some (Fin (1801439850948199 / 9007199254740992)) \<and>
   dless (Fin (1801439850948199 / 9007199254740992)) TRUST_THRESHOLD \<and>
   blacklist_sandwiched
     (UpdateTrustScore
        (run_updates BlackholeAodv_new [(7, True), (7, True), (7, True), (7, True)]) 7 False) \<and>
   7 \<in> blacklistedNodes
     (UpdateTrustScore
        (run_updates BlackholeAodv_new [(7, True), (7, True), (7, True), (7, True)]) 7 False) \<and>
   blacklistedNodes
     (run_updates BlackholeAodv_new [(7, True), (7, True), (7, True), (7, True)]) = {7} \<and>
   (5::32 word) \<le> 7 \<and>
   blacklist_sandwiched
     (InitializeTrustScores
        (run_updates BlackholeAodv_new [(7, True), (7, True), (7, True), (7, True)]) 5)"
proof -
  let ?ops = "[(7, True), (7, True), (7, True), (7, True)] :: (32 word \<times> bool) list"
  let ?s4 = "run_updates BlackholeAodv_new ?ops"
  note d = drops_from_1 [OF new_view, of 7]
  have low: "GetTrustScore ?s4 7 = Fin (1801439850948199 / 9007199254740992)"
    "7 \<in> blacklistedNodes ?s4"
    using d(4) by simp_all
  have entry: "trustScores ?s4 7 = Some (Fin (1801439850948199 / 9007199254740992))"
    using low(1) by (simp add: GetTrustScore_def UpdateTrustScore_trustScores)
  have "blacklistedNodes ?s4 \<subseteq> {7}"
    using run_updates_blacklist_subset [of BlackholeAodv_new ?ops]
    by (simp add: BlackholeAodv_new_def)
  with low(2) have only: "blacklistedNodes ?s4 = {7}"
    by blast
  then have above: "\<forall>n \<in> blacklistedNodes ?s4. 5 \<le> n"
    by simp
  note f = forwards_from_low(1) [OF low]
  have t: "blacklist_sandwiched ?s4 \<and>
      blacklist_sandwiched (UpdateTrustScore ?s4 7 False) \<and>
      blacklist_sandwiched (InitializeTrustScores ?s4 5)"
    using blacklist_between_thresholds [where s = ?s4 and nodeId = 7 and dropped = False
        and ops = ?ops and totalNodes = 5] above
    by blast
  have thr: "dless (Fin (1801439850948199 / 9007199254740992)) TRUST_THRESHOLD"
    by (simp add: thresholds)
  have five: "(5::32 word) \<le> 7"
    by simp
  from t low entry f only five thr show ?thesis
    by blast
qed

text \<open>
  Claim C10 as stated: \<open>InitializeTrustScores\<close> does not keep the predicate. After four
  drops node \<open>7\<close> is blacklisted; \<open>InitializeTrustScores 10\<close> sets its score to
  \<open>1.0\<close> and leaves it on the blacklist.
\<close>

theorem initialize_after_drops_counterexample:
  "blacklist_sandwiched
     (run_updates BlackholeAodv_new [(7, True), (7, True), (7, True), (7, True)]) \<and>
   \<not> blacklist_sandwiched
     (InitializeTrustScores
        (run_updates BlackholeAodv_new [(7, True), (7, True), (7, True), (7, True)]) 10)"
proof -
  let ?s4 = "run_updates BlackholeAodv_new [(7, True), (7, True), (7, True), (7, True)]"
  have ok: "blacklist_sandwiched ?s4"
    by (rule run_updates_sandwiched [OF new_sandwiched])
  have "7 \<in> blacklistedNodes ?s4"
    using drops_from_1(4) [OF new_view, of 7] by simp
  then have bl: "7 \<in> blacklistedNodes (InitializeTrustScores ?s4 10)"
    by (simp only: InitializeTrustScores_blacklistedNodes)
  have sc: "trustScores (InitializeTrustScores ?s4 10) 7 = Some (Fin 1)"
    by (simp add: InitializeTrustScores_trustScores)
  have "\<not> dless (Fin 1) RECOVERY_THRESHOLD"
    by (simp add: thresholds)
  with bl sc have "\<not> blacklist_sandwiched (InitializeTrustScores ?s4 10)"
    unfolding blacklist_sandwiched_def by force
  with ok show ?thesis
    by blast
qed

section \<open>RouteInput\<close>

lemma dle_not_dless: "dle a b \<Longrightarrow> \<not> dless b a"
  by (cases a; cases b) auto

lemma RouteInput_unbound:
  "m_ipv4 s = None \<Longrightarrow> RouteInput s header dev ucb lcb r = (False, NoCall, s)"
  by (simp add: RouteInput_def)

lemma RouteInput_no_interface:
  "m_ipv4 s = Some ip \<Longrightarrow> GetInterfaceForDevice ip dev = - 1 \<Longrightarrow>
     RouteInput s header dev ucb lcb r = (False, NoCall, s)"
  by (simp add: RouteInput_def)

lemma RouteInput_blacklisted_drop:
  "m_ipv4 s = Some ip \<Longrightarrow> GetInterfaceForDevice ip dev \<noteq> - 1 \<Longrightarrow>
   GetDestination header \<in> blacklistedNodes s \<Longrightarrow> dless r (dropProbability s) \<Longrightarrow>
     RouteInput s header dev ucb lcb r =
       (False, NoCall,
        UpdateTrustScore (s\<lparr>totalDroppedPackets := totalDroppedPackets s + 1\<rparr>)
          (GetDestination header) True)"
  by (simp add: RouteInput_def Let_def)

lemma RouteInput_fall_through:
  "m_ipv4 s = Some ip \<Longrightarrow> GetInterfaceForDevice ip dev \<noteq> - 1 \<Longrightarrow>
   \<not> (GetDestination header \<in> blacklistedNodes s \<and> dless r (dropProbability s)) \<Longrightarrow>
     RouteInput s header dev ucb lcb r =
       deliver_or_forward s ip header (GetInterfaceForDevice ip dev) ucb lcb"
  by (auto simp: RouteInput_def Let_def)

lemma deliver_or_forward_totalDroppedPackets:
  "totalDroppedPackets (snd (snd (deliver_or_forward s ip header i ucb lcb))) =
     totalDroppedPackets s"
  by (simp add: deliver_or_forward_def Let_def UpdateTrustScore_other_fields)

lemma deliver_or_forward_returned:
  "fst (deliver_or_forward s ip header i ucb lcb) =
     (if IsDestinationAddress ip (GetDestination header) i then lcb else ucb)"
  by (simp add: deliver_or_forward_def Let_def)

text \<open>
  Claim C7. When the module has no IPv4 object, or the IPv4 object has no interface for
  the incoming device, \<open>RouteInput\<close> returns false, invokes no callback and leaves the
  module as it was: counters, trust scores and blacklist included.
\<close>

theorem RouteInput_configuration_error:
  "(m_ipv4 s = None \<or> (\<exists>ip. m_ipv4 s = Some ip \<and> GetInterfaceForDevice ip dev = - 1)) \<longrightarrow>
     RouteInput s header dev ucb lcb r = (False, NoCall, s)"
  using RouteInput_unbound RouteInput_no_interface by blast

text \<open>
  Claim C4. The destination is blacklisted and the draw is at least the drop probability:
  \<open>RouteInput\<close> does what lines 115 to 143 do to the unchanged module. A local
  delivery leaves the module as it was. Otherwise the forwarded counter is incremented
  and the destination's score is updated as forwarded: it becomes the old score plus the
  double \<open>0.1\<close>, clamped; the dropped counter is unchanged, and the call returns whether
  the unicast callback is present.
\<close>

theorem RouteInput_escaped_drop_rewarded:
  "m_ipv4 s = Some ip \<and> GetInterfaceForDevice ip dev \<noteq> - 1 \<and>
   GetDestination header \<in> blacklistedNodes s \<and> dle (dropProbability s) r \<longrightarrow>
     (let dest = GetDestination header;
          res = RouteInput s header dev ucb lcb r;
          s' = snd (snd res)
      in res = deliver_or_forward s ip header (GetInterfaceForDevice ip dev) ucb lcb \<and>
         (IsDestinationAddress ip dest (GetInterfaceForDevice ip dev) \<longrightarrow> s' = s) \<and>
         (\<not> IsDestinationAddress ip dest (GetInterfaceForDevice ip dev) \<longrightarrow>
            s' = UpdateTrustScore
                   (s\<lparr>totalForwardedPackets := totalForwardedPackets s + 1\<rparr>) dest False \<and>
            GetTrustScore s' dest =
              clamp (dadd (GetTrustScore s dest) (Fin (3602879701896397 / 36028797018963968)))
                (Fin 0) (Fin 1) \<and>
            totalDroppedPackets s' = totalDroppedPackets s \<and>
            fst res = ucb))"
proof (intro impI)
  assume a: "m_ipv4 s = Some ip \<and> GetInterfaceForDevice ip dev \<noteq> - 1 \<and>
    GetDestination header \<in> blacklistedNodes s \<and> dle (dropProbability s) r"
  then have "\<not> dless r (dropProbability s)"
    by (simp add: dle_not_dless)
  with a have eq: "RouteInput s header dev ucb lcb r =
      deliver_or_forward s ip header (GetInterfaceForDevice ip dev) ucb lcb"
    by (simp add: RouteInput_fall_through)
  have sc: "GetTrustScore (UpdateTrustScore s1 n False) n =
      clamp (dadd (GetTrustScore s1 n) (Fin (3602879701896397 / 36028797018963968)))
        (Fin 0) (Fin 1)" for s1 n
    by (simp add: GetTrustScore_def UpdateTrustScore_trustScores score_change_False)
  have g: "GetTrustScore (s\<lparr>totalForwardedPackets := x\<rparr>) n = GetTrustScore s n" for x n
    by (simp add: GetTrustScore_def)
  show "let dest = GetDestination header;
          res = RouteInput s header dev ucb lcb r;
          s' = snd (snd res)
      in res = deliver_or_forward s ip header (GetInterfaceForDevice ip dev) ucb lcb \<and>
         (IsDestinationAddress ip dest (GetInterfaceForDevice ip dev) \<longrightarrow> s' = s) \<and>
         (\<not> IsDestinationAddress ip dest (GetInterfaceForDevice ip dev) \<longrightarrow>
            s' = UpdateTrustScore
                   (s\<lparr>totalForwardedPackets := totalForwardedPackets s + 1\<rparr>) dest False \<and>
            GetTrustScore s' dest =
              clamp (dadd (GetTrustScore s dest) (Fin (3602879701896397 / 36028797018963968)))
                (Fin 0) (Fin 1) \<and>
            totalDroppedPackets s' = totalDroppedPackets s \<and>
            fst res = ucb)"
    unfolding eq Let_def
    by (simp add: deliver_or_forward_def Let_def sc g UpdateTrustScore_other_fields)
qed

text \<open>
  The mitigated module, with a blacklisted destination. With drop probability \<open>1.0\<close>
  every draw from \<open>[0, 1)\<close> ends in a drop. With drop probability \<open>0.0\<close> no draw
  does: the dropped counter is unchanged and a bound module with a resolved interface
  goes on to the deliver-or-forward code. In a bound module with a resolved interface the
  blacklist drop happens exactly when \<open>r < dropProbability\<close>.
\<close>

lemma blacklisted_drop_condition:
  "GetDestination header \<in> blacklistedNodes s \<longrightarrow>
     (let res = RouteInput s header dev ucb lcb r; s' = snd (snd res) in
        (dropProbability s = Fin 1 \<and> is_draw r \<longrightarrow> fst res = False) \<and>
        (dropProbability s = Fin 0 \<and> is_draw r \<longrightarrow>
           totalDroppedPackets s' = totalDroppedPackets s \<and>
           (\<forall>ip. m_ipv4 s = Some ip \<and> GetInterfaceForDevice ip dev \<noteq> - 1 \<longrightarrow>
              res = deliver_or_forward s ip header (GetInterfaceForDevice ip dev) ucb lcb)) \<and>
        (\<forall>ip. m_ipv4 s = Some ip \<and> GetInterfaceForDevice ip dev \<noteq> - 1 \<longrightarrow>
           (dless r (dropProbability s) \<longrightarrow>
              res = (False, NoCall,
                     UpdateTrustScore
                       (s\<lparr>totalDroppedPackets := totalDroppedPackets s + 1\<rparr>)
                       (GetDestination header) True)) \<and>
           (\<not> dless r (dropProbability s) \<longrightarrow>
              res = deliver_or_forward s ip header (GetInterfaceForDevice ip dev) ucb lcb) \<and>
           (totalDroppedPackets s' = totalDroppedPackets s + 1 \<longleftrightarrow>
              dless r (dropProbability s))))"
proof (intro impI)
  assume bl: "GetDestination header \<in> blacklistedNodes s"
  let ?res = "RouteInput s header dev ucb lcb r"
  have one: "fst ?res = False" if "dropProbability s = Fin 1" "is_draw r"
  proof -
    from that have "dless r (dropProbability s)"
      by (simp add: is_draw_def)
    with bl show ?thesis
      by (auto simp: RouteInput_def Let_def deliver_or_forward_def split: option.splits)
  qed
  have nodrop: "\<not> dless r (dropProbability s)" if "dropProbability s = Fin 0" "is_draw r"
    using that by (simp add: is_draw_def dle_not_dless)
  have same: "totalDroppedPackets (snd (snd ?res)) = totalDroppedPackets s"
    if "\<not> dless r (dropProbability s)"
    using that
    by (auto simp: RouteInput_def Let_def deliver_or_forward_totalDroppedPackets
        split: option.splits)
  have ft: "?res = deliver_or_forward s ip header (GetInterfaceForDevice ip dev) ucb lcb"
    if "m_ipv4 s = Some ip" "GetInterfaceForDevice ip dev \<noteq> - 1" "\<not> dless r (dropProbability s)"
    for ip
    using that by (simp add: RouteInput_fall_through)
  have dr: "?res = (False, NoCall,
        UpdateTrustScore (s\<lparr>totalDroppedPackets := totalDroppedPackets s + 1\<rparr>)
          (GetDestination header) True)"
    if "m_ipv4 s = Some ip" "GetInterfaceForDevice ip dev \<noteq> - 1" "dless r (dropProbability s)"
    for ip
    using that bl by (simp add: RouteInput_blacklisted_drop)
  have cnt: "totalDroppedPackets (snd (snd ?res)) = totalDroppedPackets s + 1 \<longleftrightarrow>
      dless r (dropProbability s)"
    if "m_ipv4 s = Some ip" "GetInterfaceForDevice ip dev \<noteq> - 1" for ip
  proof (cases "dless r (dropProbability s)")
    case True
    then show ?thesis
      using dr [OF that True] by (simp add: UpdateTrustScore_other_fields)
  next
    case False
    then show ?thesis
      using same [OF False] by simp
  qed
  show "let res = ?res; s' = snd (snd res) in
        (dropProbability s = Fin 1 \<and> is_draw r \<longrightarrow> fst res = False) \<and>
        (dropProbability s = Fin 0 \<and> is_draw r \<longrightarrow>
           totalDroppedPackets s' = totalDroppedPackets s \<and>
           (\<forall>ip. m_ipv4 s = Some ip \<and> GetInterfaceForDevice ip dev \<noteq> - 1 \<longrightarrow>
              res = deliver_or_forward s ip header (GetInterfaceForDevice ip dev) ucb lcb)) \<and>
        (\<forall>ip. m_ipv4 s = Some ip \<and> GetInterfaceForDevice ip dev \<noteq> - 1 \<longrightarrow>
           (dless r (dropProbability s) \<longrightarrow>
              res = (False, NoCall,
                     UpdateTrustScore
                       (s\<lparr>totalDroppedPackets := totalDroppedPackets s + 1\<rparr>)
                       (GetDestination header) True)) \<and>
           (\<not> dless r (dropProbability s) \<longrightarrow>
              res = deliver_or_forward s ip header (GetInterfaceForDevice ip dev) ucb lcb) \<and>
           (totalDroppedPackets s' = totalDroppedPackets s + 1 \<longleftrightarrow>
              dless r (dropProbability s)))"
    unfolding Let_def using one nodrop same ft dr cnt by blast
qed

lemma dless_imp_dle: "dless a b \<Longrightarrow> dle a b"
  by (cases a; cases b) auto

lemma dless_not_dle: "dless a b \<Longrightarrow> \<not> dle b a"
  by (cases a; cases b) auto

theorem RouteInput_configuration_error_witness:
  "m_ipv4 BlackholeAodv_new = None \<and>
   RouteInput BlackholeAodv_new example_header 0 True True (Fin (1 / 2)) =
     (False, NoCall, BlackholeAodv_new) \<and>
   m_ipv4 example_module = Some example_ipv4 \<and>
   GetInterfaceForDevice example_ipv4 5 = - 1 \<and>
   RouteInput example_module example_header 5 True True (Fin (1 / 2)) =
     (False, NoCall, example_module)"
  using RouteInput_configuration_error [of BlackholeAodv_new 0 example_header True True "Fin (1 / 2)"]
    RouteInput_configuration_error [of example_module 5 example_header True True "Fin (1 / 2)"]
  by (simp add: BlackholeAodv_new_def example_module_def example_ipv4_def)

theorem RouteInput_escaped_drop_rewarded_witness:
  "m_ipv4 example_module = Some example_ipv4 \<and>
   GetInterfaceForDevice example_ipv4 0 \<noteq> - 1 \<and>
   GetDestination example_header \<in> blacklistedNodes example_module \<and>
   dle (dropProbability example_module) (Fin (3 / 4)) \<and>
   \<not> IsDestinationAddress example_ipv4 7 0 \<and>
   GetTrustScore example_module 7 = Fin (1 / 2) \<and>
   (let res = RouteInput example_module example_header 0 True True (Fin (3 / 4)) in
      fst res = True \<and>
      GetTrustScore (snd (snd res)) 7 = Fin (5404319552844595 / 9007199254740992) \<and>
      totalForwardedPackets (snd (snd res)) = 4 \<and>
      totalDroppedPackets (snd (snd res)) = 4)"
proof -
  have h: "m_ipv4 example_module = Some example_ipv4 \<and>
      GetInterfaceForDevice example_ipv4 0 \<noteq> - 1 \<and>
      GetDestination example_header \<in> blacklistedNodes example_module \<and>
      dle (dropProbability example_module) (Fin (3 / 4))"
    by (simp add: example_module_def example_ipv4_def example_header_def)
  have v: "GetTrustScore example_module 7 = Fin (1 / 2)"
    by (simp add: example_module_def GetTrustScore_def)
  have l: "\<not> IsDestinationAddress example_ipv4 7 0" "GetInterfaceForDevice example_ipv4 0 = 0"
    "GetDestination example_header = 7" "totalForwardedPackets example_module = 3"
    "totalDroppedPackets example_module = 4"
    by (simp_all add: example_ipv4_def example_header_def example_module_def)
  show ?thesis
    using RouteInput_escaped_drop_rewarded [of example_module example_ipv4 0 example_header
        "Fin (3 / 4)" True True] h v l forward_step_4
    by (simp add: Let_def score_change_False UpdateTrustScore_other_fields
        deliver_or_forward_def GetTrustScore_def UpdateTrustScore_trustScores)
qed

lemma blacklisted_drop_condition_example:
  "GetDestination example_header \<in> blacklistedNodes example_module \<and>
   is_draw (Fin (3 / 4)) \<and> is_draw (Fin 0) \<and>
   fst (RouteInput (example_module\<lparr>dropProbability := Fin 1\<rparr>) example_header 0 True True
          (Fin (3 / 4))) = False \<and>
   totalDroppedPackets
     (snd (snd (RouteInput (example_module\<lparr>dropProbability := Fin 1\<rparr>) example_header 0
                  True True (Fin (3 / 4))))) = 5 \<and>
   fst (RouteInput (example_module\<lparr>dropProbability := Fin 0\<rparr>) example_header 0 True True
          (Fin 0)) = True \<and>
   totalDroppedPackets
     (snd (snd (RouteInput (example_module\<lparr>dropProbability := Fin 0\<rparr>) example_header 0
                  True True (Fin 0)))) = 4"
proof -
  let ?s1 = "example_module\<lparr>dropProbability := Fin 1\<rparr>"
  let ?s0 = "example_module\<lparr>dropProbability := Fin 0\<rparr>"
  have h: "GetDestination example_header \<in> blacklistedNodes ?s1"
    "GetDestination example_header \<in> blacklistedNodes ?s0"
    "m_ipv4 ?s1 = Some example_ipv4" "m_ipv4 ?s0 = Some example_ipv4"
    "GetInterfaceForDevice example_ipv4 0 = 0"
    "is_draw (Fin (3 / 4))" "is_draw (Fin 0)"
    "totalDroppedPackets example_module = 4"
    by (simp_all add: example_module_def example_header_def example_ipv4_def is_draw_def)
  have f: "fst (deliver_or_forward ?s0 example_ipv4 example_header 0 True True) = True"
    by (simp add: deliver_or_forward_returned)
  show ?thesis
    using blacklisted_drop_condition [of example_header ?s1 0 True True "Fin (3 / 4)"]
      blacklisted_drop_condition [of example_header ?s0 0 True True "Fin 0"] h f
    by (simp add: Let_def UpdateTrustScore_other_fields
        deliver_or_forward_totalDroppedPackets)
qed

text \<open>
  In both modules \<open>SetDropProbability\<close> with a value below \<open>0.0\<close> or above
  \<open>1.0\<close> changes nothing, and with a value in \<open>[0.0, 1.0]\<close> stores it and changes
  nothing else.
\<close>

lemma SetDropProbability_range:
  "(dless p (Fin 0) \<or> dless (Fin 1) p \<longrightarrow>
      SetDropProbability s p = s \<and> SetDropProbability_unmit u p = u) \<and>
   (dle (Fin 0) p \<and> dle p (Fin 1) \<longrightarrow>
      SetDropProbability s p = s\<lparr>dropProbability := p\<rparr> \<and>
      SetDropProbability_unmit u p = u\<lparr>dropProbability_unmit := p\<rparr>)"
  by (auto simp: SetDropProbability_def SetDropProbability_unmit_def dest: dle_not_dless)

lemma SetDropProbability_range_example:
  "dless (Fin 1) (Fin (3 / 2)) \<and>
   SetDropProbability BlackholeAodv_new (Fin (3 / 2)) = BlackholeAodv_new \<and>
   SetDropProbability_unmit BlackholeAodv_unmit_new (Fin (3 / 2)) = BlackholeAodv_unmit_new \<and>
   dless (Fin (- (1 / 2))) (Fin 0) \<and>
   SetDropProbability BlackholeAodv_new (Fin (- (1 / 2))) = BlackholeAodv_new \<and>
   dle (Fin 0) (Fin (1 / 2)) \<and> dle (Fin (1 / 2)) (Fin 1) \<and>
   dropProbability (SetDropProbability BlackholeAodv_new (Fin (1 / 2))) = Fin (1 / 2) \<and>
   dropProbability_unmit (SetDropProbability_unmit BlackholeAodv_unmit_new (Fin (1 / 2))) =
     Fin (1 / 2)"
  using SetDropProbability_range [of "Fin (3 / 2)" BlackholeAodv_new BlackholeAodv_unmit_new]
    SetDropProbability_range [of "Fin (- (1 / 2))" BlackholeAodv_new BlackholeAodv_unmit_new]
    SetDropProbability_range [of "Fin (1 / 2)" BlackholeAodv_new BlackholeAodv_unmit_new]
  by simp

text \<open>
  Claim C8. \<open>SetDropProbability\<close> tests \<open>probability < 0.0 || probability > 1.0\<close>.
  NaN is not in \<open>[0.0, 1.0]\<close>, yet both comparisons are false for it: both modules
  store NaN in place of the previous value, \<open>0.05\<close> in a new mitigated module and
  \<open>1.0\<close> in a new unmitigated one.
\<close>

theorem SetDropProbability_stores_NaN:
  "\<not> (dle (Fin 0) NaN \<and> dle NaN (Fin 1)) \<and>
   dropProbability BlackholeAodv_new = Fin (3602879701896397 / 72057594037927936) \<and>
   dropProbability (SetDropProbability BlackholeAodv_new NaN) = NaN \<and>
   dropProbability_unmit BlackholeAodv_unmit_new = Fin 1 \<and>
   dropProbability_unmit (SetDropProbability_unmit BlackholeAodv_unmit_new NaN) = NaN"
proof -
  have "dropProbability BlackholeAodv_new = Fin (3602879701896397 / 72057594037927936)"
    by (simp only: BlackholeAodv_new_def BlackholeAodv.simps lit_0_05)
  then show ?thesis
    by (simp add: SetDropProbability_def SetDropProbability_unmit_def BlackholeAodv_unmit_new_def)
qed

text \<open>The unmitigated module drops exactly when \<open>randomValue <= dropProbability\<close>.\<close>

lemma RouteInput_unmit_drops_iff:
  "fst (RouteInput_unmit u r) = False \<longleftrightarrow> dle r (dropProbability_unmit u)"
  by (simp add: RouteInput_unmit_def)

text \<open>
  Claim C5. The unmitigated \<open>RouteInput\<close> tests \<open>randomValue <= dropProbability\<close>
  where the mitigated one tests \<open>r < dropProbability\<close>. With the probability set to
  \<open>0.0\<close> and the draw \<open>0.0\<close> the unmitigated module drops the packet and counts
  it, although \<open>0.0 < 0.0\<close> is false; the mitigated module, with the destination
  blacklisted, forwards it and counts no drop. The same holds at probability and draw
  \<open>0.5\<close>.
\<close>

theorem unmitigated_drops_at_tie:
  "is_draw (Fin 0) \<and> \<not> dless (Fin 0) (Fin 0) \<and>
   dropProbability_unmit (SetDropProbability_unmit BlackholeAodv_unmit_new (Fin 0)) = Fin 0 \<and>
   RouteInput_unmit (SetDropProbability_unmit BlackholeAodv_unmit_new (Fin 0)) (Fin 0) =
     (False, BlackholeAodv_unmit_new
        \<lparr>dropProbability_unmit := Fin 0, totalDroppedPackets_unmit := 1\<rparr>) \<and>
   GetDestination example_header \<in> blacklistedNodes example_module \<and>
   dropProbability (SetDropProbability example_module (Fin 0)) = Fin 0 \<and>
   fst (RouteInput (SetDropProbability example_module (Fin 0)) example_header 0 True True
          (Fin 0)) = True \<and>
   totalDroppedPackets
     (snd (snd (RouteInput (SetDropProbability example_module (Fin 0)) example_header 0 True
                  True (Fin 0)))) = totalDroppedPackets example_module \<and>
   is_draw (Fin (1 / 2)) \<and> \<not> dless (Fin (1 / 2)) (Fin (1 / 2)) \<and>
   fst (RouteInput_unmit (SetDropProbability_unmit BlackholeAodv_unmit_new (Fin (1 / 2)))
          (Fin (1 / 2))) = False"
  by (simp add: is_draw_def SetDropProbability_unmit_def SetDropProbability_def
      BlackholeAodv_unmit_new_def RouteInput_unmit_def RouteInput_def deliver_or_forward_def
      Let_def example_module_def example_header_def example_ipv4_def
      UpdateTrustScore_other_fields)

text \<open>
  Any drop probability, the same in both modules, every node blacklisted in the mitigated
  one. For a draw below the probability both drop the packet. For a draw above it the
  unmitigated module returns true without a callback, and the mitigated one returns true
  exactly when it is bound, the interface resolves and the callback it needs is present.
\<close>

lemma unmitigated_agrees_below_probability:
  "dropProbability_unmit BlackholeAodv_unmit_new = Fin 1 \<and>
   (blacklistedNodes s = UNIV \<and> dropProbability s = dropProbability_unmit u \<longrightarrow>
     (dless r (dropProbability s) \<longrightarrow>
        fst (RouteInput_unmit u r) = False \<and>
        fst (RouteInput s header dev ucb lcb r) = False) \<and>
     (dropProbability s = Fin 1 \<and> is_draw r \<longrightarrow>
        fst (RouteInput_unmit u r) = False \<and>
        fst (RouteInput s header dev ucb lcb r) = False) \<and>
     (dless (dropProbability s) r \<longrightarrow>
        fst (RouteInput_unmit u r) = True \<and>
        (fst (RouteInput s header dev ucb lcb r) \<longleftrightarrow>
           (\<exists>ip. m_ipv4 s = Some ip \<and> GetInterfaceForDevice ip dev \<noteq> - 1 \<and>
              (if IsDestinationAddress ip (GetDestination header) (GetInterfaceForDevice ip dev)
               then lcb else ucb)))))"
  (is "_ \<and> (?same \<longrightarrow> ?agree)")
proof (rule conjI)
  show "dropProbability_unmit BlackholeAodv_unmit_new = Fin 1"
    by (simp add: BlackholeAodv_unmit_new_def)
next
  show "?same \<longrightarrow> ?agree"
  proof (rule impI)
    assume a: "blacklistedNodes s = UNIV \<and> dropProbability s = dropProbability_unmit u"
    have below: "fst (RouteInput_unmit u r) = False \<and>
        fst (RouteInput s header dev ucb lcb r) = False" if "dless r (dropProbability s)"
    proof -
      from that a have "dle r (dropProbability_unmit u)"
        by (simp add: dless_imp_dle)
      then have "fst (RouteInput_unmit u r) = False"
        by (simp add: RouteInput_unmit_def)
      moreover have "fst (RouteInput s header dev ucb lcb r) = False"
        using that a by (auto simp: RouteInput_def Let_def split: option.splits)
      ultimately show ?thesis by simp
    qed
    have one: "dless r (dropProbability s)" if "dropProbability s = Fin 1 \<and> is_draw r"
      using that by (simp add: is_draw_def)
    have above: "fst (RouteInput_unmit u r) = True \<and>
        (fst (RouteInput s header dev ucb lcb r) \<longleftrightarrow>
           (\<exists>ip. m_ipv4 s = Some ip \<and> GetInterfaceForDevice ip dev \<noteq> - 1 \<and>
              (if IsDestinationAddress ip (GetDestination header) (GetInterfaceForDevice ip dev)
               then lcb else ucb)))" if "dless (dropProbability s) r"
    proof -
      from that a have "\<not> dle r (dropProbability_unmit u)"
        by (simp add: dless_not_dle)
      then have "fst (RouteInput_unmit u r) = True"
        by (simp add: RouteInput_unmit_def)
      moreover from that have "\<not> dless r (dropProbability s)"
        by (simp add: dless_imp_dle dle_not_dless)
      then have "fst (RouteInput s header dev ucb lcb r) \<longleftrightarrow>
           (\<exists>ip. m_ipv4 s = Some ip \<and> GetInterfaceForDevice ip dev \<noteq> - 1 \<and>
              (if IsDestinationAddress ip (GetDestination header) (GetInterfaceForDevice ip dev)
               then lcb else ucb))"
        by (auto simp: RouteInput_def Let_def deliver_or_forward_returned split: option.splits)
      ultimately show ?thesis by simp
    qed
    from below one above show ?agree
      by blast
  qed
qed

text \<open>
  Claim C6. The unmitigated module starts with drop probability \<open>1.0\<close>. At that
  probability in both modules, with every node blacklisted in the mitigated one, the two
  decisions are equal for every packet and every draw from \<open>[0, 1)\<close>: both drop,
  whatever the destination. The unmitigated module counts the drop; a bound mitigated
  module with a resolved interface takes the blacklist branch, which counts the drop and
  penalises the destination.
\<close>

theorem unmitigated_default_agrees:
  "dropProbability_unmit BlackholeAodv_unmit_new = Fin 1 \<and>
   (blacklistedNodes s = UNIV \<and> dropProbability s = Fin 1 \<and>
    dropProbability_unmit u = Fin 1 \<and> is_draw r \<longrightarrow>
      fst (RouteInput_unmit u r) = fst (RouteInput s header dev ucb lcb r) \<and>
      fst (RouteInput_unmit u r) = False \<and>
      totalDroppedPackets_unmit (snd (RouteInput_unmit u r)) =
        totalDroppedPackets_unmit u + 1 \<and>
      (\<forall>ip. m_ipv4 s = Some ip \<and> GetInterfaceForDevice ip dev \<noteq> - 1 \<longrightarrow>
         RouteInput s header dev ucb lcb r =
           (False, NoCall,
            UpdateTrustScore (s\<lparr>totalDroppedPackets := totalDroppedPackets s + 1\<rparr>)
              (GetDestination header) True)))"
  (is "_ \<and> (?default \<longrightarrow> ?agree)")
proof (rule conjI)
  show "dropProbability_unmit BlackholeAodv_unmit_new = Fin 1"
    by (simp add: BlackholeAodv_unmit_new_def)
next
  show "?default \<longrightarrow> ?agree"
  proof (rule impI)
    assume a: ?default
    then have lt: "dless r (dropProbability s)" and le: "dle r (dropProbability_unmit u)"
      by (simp_all add: is_draw_def dless_imp_dle)
    from a have bl: "GetDestination header \<in> blacklistedNodes s"
      by simp
    have u: "fst (RouteInput_unmit u r) = False"
      "totalDroppedPackets_unmit (snd (RouteInput_unmit u r)) = totalDroppedPackets_unmit u + 1"
      using le by (simp_all add: RouteInput_unmit_def)
    have m: "fst (RouteInput s header dev ucb lcb r) = False"
      using lt bl by (auto simp: RouteInput_def Let_def split: option.splits)
    have b: "RouteInput s header dev ucb lcb r =
        (False, NoCall,
         UpdateTrustScore (s\<lparr>totalDroppedPackets := totalDroppedPackets s + 1\<rparr>)
           (GetDestination header) True)"
      if "m_ipv4 s = Some ip \<and> GetInterfaceForDevice ip dev \<noteq> - 1" for ip
      using that lt bl by (simp add: RouteInput_blacklisted_drop)
    from u m b show ?agree
      by blast
  qed
qed

theorem unmitigated_default_agrees_witness:
  "blacklistedNodes (example_module\<lparr>blacklistedNodes := UNIV, dropProbability := Fin 1\<rparr>)
     = UNIV \<and>
   dropProbability (example_module\<lparr>blacklistedNodes := UNIV, dropProbability := Fin 1\<rparr>)
     = Fin 1 \<and>
   dropProbability_unmit BlackholeAodv_unmit_new = Fin 1 \<and>
   is_draw (Fin (3 / 4)) \<and>
   m_ipv4 (example_module\<lparr>blacklistedNodes := UNIV, dropProbability := Fin 1\<rparr>)
     = Some example_ipv4 \<and>
   GetInterfaceForDevice example_ipv4 0 \<noteq> - 1 \<and>
   fst (RouteInput_unmit BlackholeAodv_unmit_new (Fin (3 / 4))) = False \<and>
   fst (RouteInput (example_module\<lparr>blacklistedNodes := UNIV, dropProbability := Fin 1\<rparr>)
          example_header 0 True True (Fin (3 / 4))) = False \<and>
   totalDroppedPackets
     (snd (snd (RouteInput
        (example_module\<lparr>blacklistedNodes := UNIV, dropProbability := Fin 1\<rparr>)
        example_header 0 True True (Fin (3 / 4))))) = 5 \<and>
   IsDestinationAddress example_ipv4 1 0 \<and>
   fst (RouteInput (example_module\<lparr>blacklistedNodes := UNIV, dropProbability := Fin 1\<rparr>)
          \<lparr>GetSource = 2, GetDestination = 1\<rparr> 0 True True (Fin (3 / 4))) = False \<and>
   totalDroppedPackets
     (snd (snd (RouteInput
        (example_module\<lparr>blacklistedNodes := UNIV, dropProbability := Fin 1\<rparr>)
        \<lparr>GetSource = 2, GetDestination = 1\<rparr> 0 True True (Fin (3 / 4))))) = 5"
proof -
  let ?s = "example_module\<lparr>blacklistedNodes := UNIV, dropProbability := Fin 1\<rparr>"
  have h: "blacklistedNodes ?s = UNIV" "dropProbability ?s = Fin 1"
    "dropProbability_unmit BlackholeAodv_unmit_new = Fin 1" "is_draw (Fin (3 / 4))"
    "m_ipv4 ?s = Some example_ipv4" "GetInterfaceForDevice example_ipv4 0 \<noteq> - 1"
    "IsDestinationAddress example_ipv4 1 0" "totalDroppedPackets ?s = 4"
    by (simp_all add: example_module_def example_ipv4_def BlackholeAodv_unmit_new_def
        is_draw_def)
  show ?thesis
    using unmitigated_default_agrees [of ?s BlackholeAodv_unmit_new "Fin (3 / 4)"
        example_header 0 True True]
      unmitigated_default_agrees [of ?s BlackholeAodv_unmit_new "Fin (3 / 4)"
        "\<lparr>GetSource = 2, GetDestination = 1\<rparr>" 0 True True] h
    by (simp add: UpdateTrustScore_other_fields)
qed

section \<open>The trust log\<close>

lemma LogTrustScores_headerWritten:
  "headerWritten (LogTrustScores s now is_open g) \<longleftrightarrow> headerWritten g \<or> is_open"
  by (simp add: LogTrustScores_def Let_def)

lemma count_list_score_rows:
  "count_list (map (\<lambda>n. ScoreLine now n (f n)) xs) HeaderLine = 0"
  by (induction xs) simp_all

lemma count_list_blacklist_rows:
  "count_list (map (\<lambda>n. BlacklistLine now n) xs) HeaderLine = 0"
  by (induction xs) simp_all

lemma LogTrustScores_count:
  "count_list (trustLog (LogTrustScores s now is_open g)) HeaderLine =
     count_list (trustLog g) HeaderLine + (if is_open \<and> \<not> headerWritten g then 1 else 0)"
  by (simp add: LogTrustScores_def Let_def count_list_score_rows count_list_blacklist_rows)

lemma run_exports_count:
  "count_list (trustLog (run_exports g es)) HeaderLine =
     count_list (trustLog g) HeaderLine +
     (if \<not> headerWritten g \<and> (\<exists>e \<in> set es. snd (snd e)) then 1 else 0)"
proof (induction g es rule: run_exports.induct)
  case (1 g)
  then show ?case by simp
next
  case (2 g s now is_open es)
  then show ?case
    by (auto simp: LogTrustScores_count LogTrustScores_headerWritten)
qed

lemma run_exports_all_failed:
  "\<forall>e \<in> set es. \<not> snd (snd e) \<Longrightarrow> run_exports g es = g"
  by (induction g es rule: run_exports.induct) (simp_all add: LogTrustScores_def)

lemma run_exports_append:
  "run_exports g (es @ es') = run_exports (run_exports g es) es'"
  by (induction g es rule: run_exports.induct) simp_all

text \<open>
  Claim C9. An export whose open fails leaves the log and the flag as they were. An
  export whose open succeeds appends the header if the flag is not set, then one row for
  each tracked node and one for each blacklisted node, and sets the flag; the rows
  contain no header. In a process that starts with the flag unset, the first export
  whose open succeeds appends the header, and over any sequence of exports by any
  instances the header is appended once if some open succeeds and never otherwise.
\<close>

theorem header_written_once:
  "(let g' = LogTrustScores s now is_open g;
        rows = map (\<lambda>n. ScoreLine now n (the (trustScores s n)))
                 (sorted_list_of_set (dom (trustScores s))) @
               map (\<lambda>n. BlacklistLine now n) (sorted_list_of_set (blacklistedNodes s))
    in (\<not> is_open \<longrightarrow> g' = g) \<and>
       (is_open \<and> \<not> headerWritten g \<longrightarrow>
          g' = \<lparr>headerWritten = True, trustLog = trustLog g @ HeaderLine # rows\<rparr>) \<and>
       (is_open \<and> headerWritten g \<longrightarrow>
          g' = \<lparr>headerWritten = True, trustLog = trustLog g @ rows\<rparr>) \<and>
       HeaderLine \<notin> set rows \<and>
       length rows = card (dom (trustScores s)) + card (blacklistedNodes s) \<and>
       ((\<forall>e \<in> set pre. \<not> snd (snd e)) \<longrightarrow>
          run_exports \<lparr>headerWritten = False, trustLog = f0\<rparr> (pre @ [(s, now, True)]) =
            \<lparr>headerWritten = True, trustLog = f0 @ HeaderLine # rows\<rparr>)) \<and>
   count_list (trustLog (run_exports \<lparr>headerWritten = False, trustLog = f0\<rparr> es)) HeaderLine =
     count_list f0 HeaderLine + (if \<exists>e \<in> set es. snd (snd e) then 1 else 0)"
proof -
  let ?rows = "map (\<lambda>n. ScoreLine now n (the (trustScores s n)))
                 (sorted_list_of_set (dom (trustScores s))) @
               map (\<lambda>n. BlacklistLine now n) (sorted_list_of_set (blacklistedNodes s))"
  have a: "\<not> is_open \<longrightarrow> LogTrustScores s now is_open g = g"
    by (simp add: LogTrustScores_def)
  have b: "is_open \<and> \<not> headerWritten g \<longrightarrow> LogTrustScores s now is_open g =
      \<lparr>headerWritten = True, trustLog = trustLog g @ HeaderLine # ?rows\<rparr>"
    by (simp add: LogTrustScores_def Let_def)
  have c: "is_open \<and> headerWritten g \<longrightarrow> LogTrustScores s now is_open g =
      \<lparr>headerWritten = True, trustLog = trustLog g @ ?rows\<rparr>"
    by (simp add: LogTrustScores_def Let_def)
  have d: "HeaderLine \<notin> set ?rows"
    by auto
  have e: "length ?rows = card (dom (trustScores s)) + card (blacklistedNodes s)"
    by simp
  have f: "(\<forall>e \<in> set pre. \<not> snd (snd e)) \<longrightarrow>
      run_exports \<lparr>headerWritten = False, trustLog = f0\<rparr> (pre @ [(s, now, True)]) =
        \<lparr>headerWritten = True, trustLog = f0 @ HeaderLine # ?rows\<rparr>"
    by (simp add: run_exports_append run_exports_all_failed LogTrustScores_def Let_def)
  have g: "count_list (trustLog (run_exports \<lparr>headerWritten = False, trustLog = f0\<rparr> es))
      HeaderLine = count_list f0 HeaderLine + (if \<exists>e \<in> set es. snd (snd e) then 1 else 0)"
    by (simp add: run_exports_count)
  from a b c d e f g show ?thesis
    by (simp only: Let_def) blast
qed

theorem header_written_once_witness:
  "run_exports \<lparr>headerWritten = False, trustLog = []\<rparr>
     [(example_module, Fin 5, False), (example_module, Fin 5, True),
      (BlackholeAodv_new, Fin 10, False), (example_module, Fin 10, True)] =
     \<lparr>headerWritten = True,
      trustLog = [HeaderLine, ScoreLine (Fin 5) 7 (Fin (1 / 2)), BlacklistLine (Fin 5) 7,
                  ScoreLine (Fin 10) 7 (Fin (1 / 2)), BlacklistLine (Fin 10) 7]\<rparr> \<and>
   count_list [HeaderLine, ScoreLine (Fin 5) 7 (Fin (1 / 2)), BlacklistLine (Fin 5) 7,
               ScoreLine (Fin 10) 7 (Fin (1 / 2)), BlacklistLine (Fin 10) 7] HeaderLine = 1 \<and>
   LogTrustScores example_module (Fin 5) False \<lparr>headerWritten = False, trustLog = []\<rparr> =
     \<lparr>headerWritten = False, trustLog = []\<rparr>"
proof -
  have rows: "dom (trustScores example_module) = {7}" "blacklistedNodes example_module = {7}"
    "the (trustScores example_module 7) = Fin (1 / 2)"
    by (simp_all add: example_module_def)
  let ?g0 = "\<lparr>headerWritten = False, trustLog = []\<rparr>"
  let ?g1 = "\<lparr>headerWritten = True,
      trustLog = [HeaderLine, ScoreLine (Fin 5) 7 (Fin (1 / 2)), BlacklistLine (Fin 5) 7]\<rparr>"
  have first: "run_exports ?g0 ([(example_module, Fin 5, False)] @ [(example_module, Fin 5, True)])
      = ?g1"
    using header_written_once [where s = example_module and now = "Fin 5" and is_open = True
        and g = ?g0 and pre = "[(example_module, Fin 5, False)]" and ?f0.0 = "[]" and es = "[]"]
    by (simp add: Let_def rows)
  have third: "LogTrustScores BlackholeAodv_new (Fin 10) False ?g1 = ?g1"
    using header_written_once [where s = BlackholeAodv_new and now = "Fin 10"
        and is_open = False and g = ?g1 and pre = "[]" and ?f0.0 = "[]" and es = "[]"]
    by (simp add: Let_def)
  have fourth: "LogTrustScores example_module (Fin 10) True ?g1 =
      \<lparr>headerWritten = True,
       trustLog = [HeaderLine, ScoreLine (Fin 5) 7 (Fin (1 / 2)), BlacklistLine (Fin 5) 7,
                   ScoreLine (Fin 10) 7 (Fin (1 / 2)), BlacklistLine (Fin 10) 7]\<rparr>"
    using header_written_once [where s = example_module and now = "Fin 10" and is_open = True
        and g = ?g1 and pre = "[]" and ?f0.0 = "[]" and es = "[]"]
    by (simp add: Let_def rows)
  have zeroth: "LogTrustScores example_module (Fin 5) False ?g0 = ?g0"
    using header_written_once [where s = example_module and now = "Fin 5" and is_open = False
        and g = ?g0 and pre = "[]" and ?f0.0 = "[]" and es = "[]"]
    by (simp add: Let_def)
  show ?thesis
    using first third fourth zeroth by (simp add: run_exports_append)
qed

end
